theory Spec2Isabelle
  imports
    Complex_Main
    "HOL-Library.Char_ord"
    "HOL-Library.List_Lexorder"
    "HOL-Library.Product_Lexorder"
    "HOL-Library.AList"
    "HOL-Library.Sublist"
begin

section \<open>Constants (hydra/core/constants.py)\<close>

definition GEMINI_3_FLASH :: string where "GEMINI_3_FLASH = ''gemini-3-flash-preview''"
definition GEMINI_25_PRO :: string where "GEMINI_25_PRO = ''gemini-2.5-pro''"
definition GEMINI_25_FLASH :: string where "GEMINI_25_FLASH = ''gemini-2.5-flash''"
definition GEMINI_25_FLASH_LITE :: string where "GEMINI_25_FLASH_LITE = ''gemini-2.5-flash-lite''"
definition GEMINI_25_FLASH_IMAGE :: string where "GEMINI_25_FLASH_IMAGE = ''gemini-2.5-flash-image''"
definition GEMINI_EMBEDDING :: string where "GEMINI_EMBEDDING = ''gemini-embedding-001''"

lemmas model_ids =
  GEMINI_3_FLASH_def GEMINI_25_PRO_def GEMINI_25_FLASH_def GEMINI_25_FLASH_LITE_def
  GEMINI_25_FLASH_IMAGE_def GEMINI_EMBEDDING_def

definition MODEL_PRIORITY :: "string list" where
  "MODEL_PRIORITY = [GEMINI_25_PRO, GEMINI_3_FLASH, GEMINI_25_FLASH, GEMINI_25_FLASH_LITE]"

definition IMAGE_MODEL_PRIORITY :: "string list" where
  "IMAGE_MODEL_PRIORITY = [GEMINI_25_FLASH_IMAGE]"

text \<open>One value of the table \<open>MODEL_RATE_LIMITS\<close>: the dict with the keys
  \<open>"rpm"\<close>, \<open>"rpd"\<close> and \<open>"tpm"\<close>.\<close>

record limits =
  rpm :: int
  rpd :: int
  tpm :: int

definition MODEL_RATE_LIMITS :: "string \<rightharpoonup> limits" where
  "MODEL_RATE_LIMITS = map_of
     [(GEMINI_3_FLASH,        \<lparr>rpm = 5,  rpd = 50,   tpm = 250000\<rparr>),
      (GEMINI_25_PRO,         \<lparr>rpm = 5,  rpd = 100,  tpm = 250000\<rparr>),
      (GEMINI_25_FLASH,       \<lparr>rpm = 15, rpd = 1500, tpm = 1000000\<rparr>),
      (GEMINI_25_FLASH_IMAGE, \<lparr>rpm = 10, rpd = 25,   tpm = 250000\<rparr>),
      (GEMINI_25_FLASH_LITE,  \<lparr>rpm = 15, rpd = 1000, tpm = 250000\<rparr>),
      (GEMINI_EMBEDDING,      \<lparr>rpm = 15, rpd = 1500, tpm = 1000000\<rparr>)]"

definition CAP_TEXT :: string where "CAP_TEXT = ''text''"
definition CAP_THINKING :: string where "CAP_THINKING = ''thinking''"
definition CAP_FUNCTION_CALLING :: string where "CAP_FUNCTION_CALLING = ''function_calling''"
definition CAP_SEARCH_GROUNDING :: string where "CAP_SEARCH_GROUNDING = ''search_grounding''"
definition CAP_CODE_EXECUTION :: string where "CAP_CODE_EXECUTION = ''code_execution''"
definition CAP_URL_CONTEXT :: string where "CAP_URL_CONTEXT = ''url_context''"
definition CAP_STRUCTURED_OUTPUT :: string where "CAP_STRUCTURED_OUTPUT = ''structured_output''"
definition CAP_MULTIMODAL_INPUT :: string where "CAP_MULTIMODAL_INPUT = ''multimodal_input''"
definition CAP_IMAGE_GENERATION :: string where "CAP_IMAGE_GENERATION = ''image_generation''"
definition CAP_EMBEDDING :: string where "CAP_EMBEDDING = ''embedding''"

lemmas cap_ids =
  CAP_TEXT_def CAP_THINKING_def CAP_FUNCTION_CALLING_def CAP_SEARCH_GROUNDING_def
  CAP_CODE_EXECUTION_def CAP_URL_CONTEXT_def CAP_STRUCTURED_OUTPUT_def
  CAP_MULTIMODAL_INPUT_def CAP_IMAGE_GENERATION_def CAP_EMBEDDING_def

definition full_text_caps :: "string set" where
  "full_text_caps = {CAP_TEXT, CAP_THINKING, CAP_FUNCTION_CALLING, CAP_SEARCH_GROUNDING,
     CAP_CODE_EXECUTION, CAP_URL_CONTEXT, CAP_STRUCTURED_OUTPUT, CAP_MULTIMODAL_INPUT}"

definition MODEL_CAPABILITIES :: "string \<rightharpoonup> string set" where
  "MODEL_CAPABILITIES = map_of
     [(GEMINI_3_FLASH, full_text_caps),
      (GEMINI_25_PRO, full_text_caps),
      (GEMINI_25_FLASH, full_text_caps),
      (GEMINI_25_FLASH_IMAGE, {CAP_TEXT, CAP_IMAGE_GENERATION}),
      (GEMINI_25_FLASH_LITE, full_text_caps),
      (GEMINI_EMBEDDING, {CAP_EMBEDDING})]"

definition REDIS_KEY_RATELIMIT :: string where "REDIS_KEY_RATELIMIT = ''ratelimit''"

definition HEALTH_SCORE_MAX :: int where "HEALTH_SCORE_MAX = 100"
definition HEALTH_SCORE_SUCCESS_DELTA :: int where "HEALTH_SCORE_SUCCESS_DELTA = 5"
definition HEALTH_SCORE_FAILURE_DELTA :: int where "HEALTH_SCORE_FAILURE_DELTA = - 10"
definition HEALTH_CONSECUTIVE_ERROR_DISABLE :: int where "HEALTH_CONSECUTIVE_ERROR_DISABLE = 5"

lemmas health_consts =
  HEALTH_SCORE_MAX_def HEALTH_SCORE_SUCCESS_DELTA_def HEALTH_SCORE_FAILURE_DELTA_def
  HEALTH_CONSECUTIVE_ERROR_DISABLE_def

section \<open>Rate limiter (hydra/services/rate_limiter.py)\<close>

subsection \<open>The Redis hash of one (key, model) pair\<close>

text \<open>
  A rate-window record is the Redis hash stored under \<open>ratelimit:{key_hash}:{model}\<close>.
  Its fields \<open>requests\<close> and \<open>tokens\<close> hold JSON text, which \<open>json.loads\<close> either
  decodes or rejects with \<open>JSONDecodeError\<close>; the source catches the rejection and goes on
  with the empty list. A field may also be missing from the hash, and then \<open>raw.get\<close>
  supplies the default. Time stamps are Python floats; they are modelled as reals, and
  \<open>now - 60\<close> is the same expression the source evaluates. The other fields hold the
  decimal text the writers of this module produce with \<open>str\<close>, kept here as the numbers
  themselves. The expiry that \<open>record_request\<close> sets on the hash is not modelled.
\<close>

datatype 'a json_field = Absent | Undecodable | Decoded 'a

record token_entry =
  ts :: real
  count :: int

record rate_hash =
  requests :: "real list json_field"
  tokens :: "token_entry list json_field"
  rpd_count :: "int option"
  last_rpd_reset :: "string option"
  rpm_limit :: "int option"
  rpd_limit :: "int option"
  tpm_limit :: "int option"

definition empty_hash :: rate_hash where
  "empty_hash = \<lparr>requests = Absent, tokens = Absent, rpd_count = None,
     last_rpd_reset = None, rpm_limit = None, rpd_limit = None, tpm_limit = None\<rparr>"

text \<open>\<open>json.loads(raw.get(field, "[]"))\<close> guarded by \<open>except JSONDecodeError\<close>.\<close>

fun loads_or_empty :: "'a list json_field \<Rightarrow> 'a list" where
  "loads_or_empty Absent = []"
| "loads_or_empty Undecodable = []"
| "loads_or_empty (Decoded xs) = xs"

text \<open>The part of Redis that holds rate windows: an association list from Redis key
  to hash. A key that is not in the list has no hash, and \<open>hgetall\<close> answers with the
  empty dict.\<close>

type_synonym rate_store = "(string \<times> rate_hash) list"

definition rkey :: "string \<Rightarrow> string \<Rightarrow> string" where
  "rkey key_hash model = REDIS_KEY_RATELIMIT @ '':'' @ key_hash @ '':'' @ model"

definition hgetall :: "rate_store \<Rightarrow> string \<Rightarrow> rate_hash" where
  "hgetall r k = (case map_of r k of None \<Rightarrow> empty_hash | Some h \<Rightarrow> h)"

definition stored_rpd_count :: "rate_hash \<Rightarrow> int" where
  "stored_rpd_count raw = (case rpd_count raw of None \<Rightarrow> 0 | Some n \<Rightarrow> n)"

definition stored_last_reset :: "rate_hash \<Rightarrow> string" where
  "stored_last_reset raw = (case last_rpd_reset raw of None \<Rightarrow> [] | Some d \<Rightarrow> d)"

subsection \<open>check\_rate\_limit\<close>

datatype block_reason =
    Unknown_model string
  | RPM_limit_reached int
  | RPD_limit_reached int
  | TPM_limit_exceeded int

text \<open>
  The arguments \<open>now\<close> and \<open>today\<close> are what \<open>_now_ts()\<close> and \<open>_today_pacific()\<close>
  return during the call: the clock, and the date of the clock shifted by the fixed
  offset of eight hours behind UTC, as text.
\<close>

definition check_rate_limit ::
  "rate_store \<Rightarrow> real \<Rightarrow> string \<Rightarrow> string \<Rightarrow> string \<Rightarrow> int \<Rightarrow> bool \<times> block_reason option" where
  "check_rate_limit r now today key_hash model estimated_tokens =
     (case MODEL_RATE_LIMITS model of
        None \<Rightarrow> (False, Some (Unknown_model model))
      | Some lims \<Rightarrow>
          (let window_start = now - 60;
               raw = hgetall r (rkey key_hash model);
               recent = filter (\<lambda>t. t > window_start) (loads_or_empty (requests raw))
           in if int (length recent) \<ge> rpm lims then (False, Some (RPM_limit_reached (rpm lims)))
              else
                (let rpd_count = (if stored_last_reset raw \<noteq> today then 0
                                  else stored_rpd_count raw)
                 in if rpd_count \<ge> rpd lims then (False, Some (RPD_limit_reached (rpd lims)))
                    else
                      (let token_entries = loads_or_empty (tokens raw);
                           recent_tokens =
                             sum_list (map count (filter (\<lambda>e. ts e > window_start) token_entries))
                       in if recent_tokens + estimated_tokens > tpm lims
                          then (False, Some (TPM_limit_exceeded (tpm lims)))
                          else (True, None)))))"

subsection \<open>record\_request\<close>

definition limit_or_zero :: "(limits \<Rightarrow> int) \<Rightarrow> string \<Rightarrow> int" where
  "limit_or_zero field model = (case MODEL_RATE_LIMITS model of None \<Rightarrow> 0 | Some lims \<Rightarrow> field lims)"

definition record_request ::
  "rate_store \<Rightarrow> real \<Rightarrow> string \<Rightarrow> string \<Rightarrow> string \<Rightarrow> int \<Rightarrow> rate_store" where
  "record_request r now today key_hash model tokens_used =
     (let raw = hgetall r (rkey key_hash model);
          requests' = loads_or_empty (requests raw) @ [now];
          token_entries = loads_or_empty (tokens raw) @ [\<lparr>ts = now, count = tokens_used\<rparr>];
          rpd_count' = (if stored_last_reset raw \<noteq> today then 0 else stored_rpd_count raw) + 1
      in AList.update (rkey key_hash model)
           (raw\<lparr>requests := Decoded requests',
                tokens := Decoded token_entries,
                rpd_count := Some rpd_count',
                last_rpd_reset := Some today,
                rpm_limit := Some (limit_or_zero rpm model),
                rpd_limit := Some (limit_or_zero rpd model),
                tpm_limit := Some (limit_or_zero tpm model)\<rparr>) r)"

subsection \<open>cleanup\_old\_data\<close>

definition cleanup_old_data :: "rate_store \<Rightarrow> real \<Rightarrow> string \<Rightarrow> string \<Rightarrow> rate_store" where
  "cleanup_old_data r now key_hash model =
     (let cutoff = now - 60;
          raw = hgetall r (rkey key_hash model)
      in if raw = empty_hash then r
         else
           AList.update (rkey key_hash model)
             (raw\<lparr>requests := Decoded (filter (\<lambda>t. t > cutoff) (loads_or_empty (requests raw))),
                  tokens := Decoded (filter (\<lambda>e. ts e > cutoff) (loads_or_empty (tokens raw)))\<rparr>) r)"

subsection \<open>get\_usage\_stats\<close>

record usage =
  rpm_used :: int
  u_rpm_limit :: int
  rpd_used :: int
  u_rpd_limit :: int
  tpm_used :: int
  u_tpm_limit :: int

definition get_usage_stats :: "rate_store \<Rightarrow> real \<Rightarrow> string \<Rightarrow> string \<Rightarrow> string \<Rightarrow> usage" where
  "get_usage_stats r now today key_hash model =
     (let window_start = now - 60;
          raw = hgetall r (rkey key_hash model);
          lims = (case MODEL_RATE_LIMITS model of
                   None \<Rightarrow> \<lparr>rpm = 0, rpd = 0, tpm = 0\<rparr> | Some l \<Rightarrow> l)
      in \<lparr>rpm_used = int (length (filter (\<lambda>t. t > window_start) (loads_or_empty (requests raw)))),
          u_rpm_limit = rpm lims,
          rpd_used = (if stored_last_reset raw = today then stored_rpd_count raw else 0),
          u_rpd_limit = rpd lims,
          tpm_used = sum_list (map count
                       (filter (\<lambda>e. ts e > window_start) (loads_or_empty (tokens raw)))),
          u_tpm_limit = tpm lims\<rparr>)"

subsection \<open>reset\_rpd\_all\<close>

text \<open>
  The variable \<open>cursor\<close> starts as the string \<open>"0"\<close> and is then assigned what
  \<open>r.scan\<close> returns. The client's \<open>scan\<close> (library \<open>redis\<close>, not part of this
  repository) hands the server's cursor back converted to an \<open>int\<close>; in Python an \<open>int\<close>
  and a \<open>str\<close> are never equal.
\<close>

datatype py_cursor = Cursor_str string | Cursor_int nat

text \<open>
  What the server answers to \<open>SCAN cursor MATCH ratelimit:* COUNT 100\<close> on a given
  store is a parameter: the next cursor and a batch of keys.
\<close>

type_synonym scan_reply = "rate_store \<Rightarrow> py_cursor \<Rightarrow> nat \<times> string list"

definition hset_rpd_count :: "string \<Rightarrow> int \<Rightarrow> rate_store \<Rightarrow> rate_store" where
  "hset_rpd_count k n r = AList.update k ((hgetall r k)\<lparr>rpd_count := Some n\<rparr>) r"

text \<open>
  One pass through the body of \<open>while True\<close>, up to the test of the cursor: the call of
  \<open>scan\<close>, then \<open>HSET rkey rpd_count "0"\<close> and one more on the counter for each key of
  the batch.
\<close>

definition scan_pass ::
  "scan_reply \<Rightarrow> py_cursor \<Rightarrow> nat \<Rightarrow> rate_store \<Rightarrow> py_cursor \<times> nat \<times> rate_store" where
  "scan_pass scan cursor n r =
     (case scan r cursor of
        (next_cursor, rkeys) \<Rightarrow>
          (Cursor_int next_cursor, n + length rkeys, fold (\<lambda>k. hset_rpd_count k 0) rkeys r))"

text \<open>The loop; \<open>None\<close> stands for a call that never returns.\<close>

partial_function (option) reset_rpd_loop ::
  "scan_reply \<Rightarrow> py_cursor \<Rightarrow> nat \<Rightarrow> rate_store \<Rightarrow> (nat \<times> rate_store) option" where
  "reset_rpd_loop scan cursor n r =
     (case scan_pass scan cursor n r of
        (cursor', n', r') \<Rightarrow>
          (if cursor' = Cursor_str ''0'' then Some (n', r')
           else reset_rpd_loop scan cursor' n' r'))"

definition reset_rpd_all :: "scan_reply \<Rightarrow> rate_store \<Rightarrow> (nat \<times> rate_store) option" where
  "reset_rpd_all scan r = reset_rpd_loop scan (Cursor_str ''0'') 0 r"

section \<open>API key service (hydra/services/api\_key\_service.py)\<close>

text \<open>
  \<open>APIKeyEntry\<close> is the pydantic model of hydra/models/schemas.py. The Redis hash
  \<open>apikeys\<close> maps a key hash to the JSON text of an entry; \<open>model_validate_json\<close>
  either yields the entry or raises, and \<open>add_api_key\<close> catches that exception. The
  stored text is therefore either the JSON of an entry or text that does not validate.
  Dates are the clock reading \<open>utcnow\<close> passed in; the random \<open>id\<close> of a new entry
  is passed in as well; the fields \<open>id\<close> and \<open>notes\<close> are named \<open>entry_id\<close> and
  \<open>entry_notes\<close>. The set \<open>active_keys\<close> and the hash \<open>_plainkeys\<close> (read by the
  chat route) belong to the same store.
\<close>

record APIKeyEntry =
  entry_id :: string
  email :: string
  api_key_preview :: string
  project_id :: string
  created_at :: real
  last_validated :: "real option"
  is_active :: bool
  health_score :: int
  consecutive_errors :: int
  available_models :: "string list"
  entry_notes :: string

datatype stored_entry = Entry_json APIKeyEntry | Invalid_json

datatype py_error =
    ValidationError
  | KeyError
  | AllKeysExhaustedError
  | GeminiAPIError int
  | Unexpected_exception

record key_store =
  apikeys :: "(string \<times> stored_entry) list"
  active_keys :: "string set"
  plainkeys :: "string \<rightharpoonup> string"

definition preview_of :: "string \<Rightarrow> string" where
  "preview_of raw_key = ''...'' @ drop (length raw_key - 6) raw_key"

text \<open>
  \<open>hash_key\<close> is SHA-256 of the key text; the function is a parameter here. The merged
  model list is \<open>list(set(old) | set(new))\<close>, whose order Python leaves open: the model
  lists the old models first and drops repetitions.
\<close>

definition add_api_key ::
  "(string \<Rightarrow> string) \<Rightarrow> real \<Rightarrow> string \<Rightarrow> key_store \<Rightarrow>
     string \<Rightarrow> string \<Rightarrow> string list \<Rightarrow> string \<Rightarrow> string \<Rightarrow> string \<times> key_store" where
  "add_api_key hash_key utcnow new_id s api_key email' available_models' notes' project_id' =
     (let kh = hash_key api_key;
          fresh = \<lparr>entry_id = new_id, email = email', api_key_preview = preview_of api_key,
                    project_id = project_id', created_at = utcnow,
                    last_validated = Some utcnow, is_active = True, health_score = 100,
                    consecutive_errors = 0, available_models = available_models',
                    entry_notes = notes'\<rparr>;
          created = (kh, s\<lparr>apikeys := AList.update kh (Entry_json fresh) (apikeys s),
                           active_keys := insert kh (active_keys s)\<rparr>)
      in case map_of (apikeys s) kh of
           None \<Rightarrow> created
         | Some Invalid_json \<Rightarrow> created
         | Some (Entry_json existing) \<Rightarrow>
             (let merged_models = remdups (available_models existing @ available_models');
                  existing' = existing
                    \<lparr>available_models := merged_models,
                     email := email',
                     project_id := (if project_id' \<noteq> [] then project_id' else project_id existing),
                     last_validated := Some utcnow,
                     api_key_preview := preview_of api_key,
                     entry_notes := (if notes' \<noteq> [] then notes' else entry_notes existing),
                     is_active := True\<rparr>
              in (kh, s\<lparr>apikeys := AList.update kh (Entry_json existing') (apikeys s),
                        active_keys := insert kh (active_keys s)\<rparr>)))"

definition update_models ::
  "real \<Rightarrow> key_store \<Rightarrow> string \<Rightarrow> string list \<Rightarrow> py_error + (bool \<times> key_store)" where
  "update_models utcnow s key_hash available_models' =
     (case map_of (apikeys s) key_hash of
        None \<Rightarrow> Inr (False, s)
      | Some Invalid_json \<Rightarrow> Inl ValidationError
      | Some (Entry_json entry) \<Rightarrow>
          (let old_models = set (available_models entry);
               new_models = set available_models'
           in if old_models \<noteq> new_models
              then Inr (True,
                     s\<lparr>apikeys := AList.update key_hash
                         (Entry_json (entry\<lparr>available_models := available_models',
                                            last_validated := Some utcnow\<rparr>)) (apikeys s)\<rparr>)
              else Inr (False, s)))"

fun get_all_keys_of :: "(string \<times> stored_entry) list \<Rightarrow> py_error + (string \<times> APIKeyEntry) list" where
  "get_all_keys_of [] = Inr []"
| "get_all_keys_of ((kh, Invalid_json) # rest) = Inl ValidationError"
| "get_all_keys_of ((kh, Entry_json entry) # rest) =
     (case get_all_keys_of rest of
        Inl err \<Rightarrow> Inl err
      | Inr entries \<Rightarrow> Inr ((kh, entry) # entries))"

definition get_all_keys :: "key_store \<Rightarrow> py_error + (string \<times> APIKeyEntry) list" where
  "get_all_keys s = get_all_keys_of (apikeys s)"

definition get_active_keys :: "key_store \<Rightarrow> py_error + (string \<times> APIKeyEntry) list" where
  "get_active_keys s =
     (case get_all_keys s of
        Inl err \<Rightarrow> Inl err
      | Inr all_keys \<Rightarrow> Inr (filter (\<lambda>(kh, entry). is_active entry) all_keys))"

definition update_health :: "key_store \<Rightarrow> string \<Rightarrow> bool \<Rightarrow> py_error + key_store" where
  "update_health s key_hash success =
     (case map_of (apikeys s) key_hash of
        None \<Rightarrow> Inr s
      | Some Invalid_json \<Rightarrow> Inl ValidationError
      | Some (Entry_json entry) \<Rightarrow>
          (if success
           then
             (let entry' = entry
                    \<lparr>health_score := min HEALTH_SCORE_MAX (health_score entry + HEALTH_SCORE_SUCCESS_DELTA),
                     consecutive_errors := 0\<rparr>
              in Inr (s\<lparr>apikeys := AList.update key_hash (Entry_json entry') (apikeys s)\<rparr>))
           else
             (let entry' = entry
                    \<lparr>health_score := max 0 (health_score entry + HEALTH_SCORE_FAILURE_DELTA),
                     consecutive_errors := consecutive_errors entry + 1\<rparr>
              in if consecutive_errors entry' \<ge> HEALTH_CONSECUTIVE_ERROR_DISABLE
                 then Inr (s\<lparr>apikeys := AList.update key_hash
                                 (Entry_json (entry'\<lparr>is_active := False\<rparr>)) (apikeys s),
                             active_keys := active_keys s - {key_hash}\<rparr>)
                 else Inr (s\<lparr>apikeys := AList.update key_hash (Entry_json entry') (apikeys s)\<rparr>))))"

section \<open>Router (hydra/services/router\_service.py)\<close>

subsection \<open>Python floats\<close>

text \<open>
  A Python float is an IEEE 754 double. It is modelled by the real number it denotes,
  and an operation on floats by the exact operation followed by rounding to the nearest
  double, ties going to the even significand. \<open>binade fuel x\<close> is the exponent \<open>e\<close>
  with \<open>2 ^ e \<le> x < 2 ^ (e + 1)\<close> of a positive \<open>x\<close>, found by halving or doubling;
  1100 steps cover the exponents of all doubles. A double has 53 significant bits, and
  below \<open>2 ^ - 1022\<close> the doubles are evenly spaced. Values beyond the largest double
  (an infinity, or the \<open>OverflowError\<close> of a conversion) are outside the model.
\<close>

definition round_half_even :: "real \<Rightarrow> int" where
  "round_half_even y =
     (let f = \<lfloor>y\<rfloor>; d = y - of_int f
      in if d < 1 / 2 then f
         else if d > 1 / 2 then f + 1
         else if even f then f else f + 1)"

fun binade :: "nat \<Rightarrow> real \<Rightarrow> int" where
  "binade 0 x = 0"
| "binade (Suc fuel) x =
     (if x \<ge> 2 then binade fuel (x / 2) + 1
      else if x < 1 then binade fuel (x * 2) - 1
      else 0)"

definition pow2 :: "int \<Rightarrow> real" where
  "pow2 q = (if q \<ge> 0 then 2 ^ nat q else 1 / 2 ^ nat (- q))"

definition round_double :: "real \<Rightarrow> real" where
  "round_double x =
     (if x = 0 then 0
      else
        (let e = max (binade 1100 \<bar>x\<bar>) (- 1022);
             q = e - 52
         in of_int (round_half_even (x / pow2 q)) * pow2 q))"

text \<open>
  The operations that \<open>_score\<close> uses: the conversion of an \<open>int\<close> operand that meets a
  float, \<open>+\<close>, \<open>-\<close>, \<open>*\<close> and \<open>/\<close> on floats, and \<open>/\<close> on two \<open>int\<close>s, which Python
  rounds once, from the exact quotient.
\<close>

definition float_of_int :: "int \<Rightarrow> real" where
  "float_of_int n = round_double (of_int n)"

definition float_add :: "real \<Rightarrow> real \<Rightarrow> real" where
  "float_add x y = round_double (x + y)"

definition float_sub :: "real \<Rightarrow> real \<Rightarrow> real" where
  "float_sub x y = round_double (x - y)"

definition float_mul :: "real \<Rightarrow> real \<Rightarrow> real" where
  "float_mul x y = round_double (x * y)"

definition float_truediv :: "real \<Rightarrow> real \<Rightarrow> real" where
  "float_truediv x y = round_double (x / y)"

definition int_truediv :: "int \<Rightarrow> int \<Rightarrow> real" where
  "int_truediv a b = round_double (of_int a / of_int b)"

subsection \<open>Scores\<close>

text \<open>
  The two weights of a \<open>RouterService\<close> object, floats; their defaults are the
  literals \<open>0.4\<close> and \<open>0.6\<close>, that is the doubles nearest to these fractions. The
  divisors of \<open>_score\<close> are never 0.
\<close>

record router_config =
  health_weight :: real
  capacity_weight :: real

definition default_router :: router_config where
  "default_router =
     \<lparr>health_weight = round_double (4 / 10), capacity_weight = round_double (6 / 10)\<rparr>"

definition score :: "router_config \<Rightarrow> int \<Rightarrow> usage \<Rightarrow> real" where
  "score cfg health u =
     (let rpm_pct = float_mul (int_truediv (rpm_used u) (max (u_rpm_limit u) 1)) (float_of_int 100);
          rpd_pct = float_mul (int_truediv (rpd_used u) (max (u_rpd_limit u) 1)) (float_of_int 100);
          tpm_pct = float_mul (int_truediv (tpm_used u) (max (u_tpm_limit u) 1)) (float_of_int 100);
          capacity_score =
            float_sub (float_of_int 100)
              (float_truediv (float_add (float_add rpm_pct rpd_pct) tpm_pct) (float_of_int 3))
      in float_add (float_mul (float_of_int health) (health_weight cfg))
           (float_mul capacity_score (capacity_weight cfg)))"

subsection \<open>Selection\<close>

text \<open>
  An optional argument that Python tests for truth: \<open>None\<close> and the empty value both
  count as false.
\<close>

definition truthy_set :: "'a set option \<Rightarrow> bool" where
  "truthy_set x = (case x of None \<Rightarrow> False | Some A \<Rightarrow> A \<noteq> {})"

definition set_of :: "'a set option \<Rightarrow> 'a set" where
  "set_of x = (case x of None \<Rightarrow> {} | Some A \<Rightarrow> A)"

definition build_model_order :: "string option \<Rightarrow> string set option \<Rightarrow> string list" where
  "build_model_order preferred required_capabilities =
     (let base =
            (if truthy_set required_capabilities
                \<and> CAP_IMAGE_GENERATION \<in> set_of required_capabilities
             then IMAGE_MODEL_PRIORITY
             else if truthy_set required_capabilities
                \<and> CAP_EMBEDDING \<in> set_of required_capabilities
             then [GEMINI_EMBEDDING]
             else MODEL_PRIORITY)
      in case preferred of
           None \<Rightarrow> base
         | Some p \<Rightarrow>
             (if p \<noteq> [] \<and> MODEL_RATE_LIMITS p \<noteq> None
              then [p] @ filter (\<lambda>m. m \<noteq> p) base
              else base))"

text \<open>The inner loop \<open>for kh, entry in eligible.items()\<close>, which fills \<open>scored\<close>.\<close>

fun score_eligible ::
  "router_config \<Rightarrow> rate_store \<Rightarrow> real \<Rightarrow> string \<Rightarrow> string \<Rightarrow> int \<Rightarrow>
     (string \<times> APIKeyEntry) list \<Rightarrow> (real \<times> string) list" where
  "score_eligible cfg r now today model estimated_tokens [] = []"
| "score_eligible cfg r now today model estimated_tokens ((kh, entry) # rest) =
     (if \<not> fst (check_rate_limit r now today kh model estimated_tokens)
      then score_eligible cfg r now today model estimated_tokens rest
      else (score cfg (health_score entry) (get_usage_stats r now today kh model), kh)
             # score_eligible cfg r now today model estimated_tokens rest)"

definition eligible_keys ::
  "(string \<times> APIKeyEntry) list \<Rightarrow> string \<Rightarrow> (string \<times> string) set \<Rightarrow> (string \<times> APIKeyEntry) list" where
  "eligible_keys active model exclude =
     filter (\<lambda>(kh, entry). model \<in> set (available_models entry) \<and> (kh, model) \<notin> exclude) active"

text \<open>
  \<open>scored.sort(reverse=True)\<close> orders the tuples \<open>(score, kh)\<close> from the greatest to
  the least, tuples being compared component by component and strings character by
  character; \<open>scored[0]\<close> is then the head.
\<close>

definition sort_reverse :: "(real \<times> string) list \<Rightarrow> (real \<times> string) list" where
  "sort_reverse scored = rev (sort scored)"

text \<open>The outer loop \<open>for model in models_to_try\<close>; running off its end raises
  \<open>AllKeysExhaustedError\<close>.\<close>

type_synonym selection = "string \<times> string \<times> string \<times> string"

fun try_models ::
  "router_config \<Rightarrow> rate_store \<Rightarrow> real \<Rightarrow> string \<Rightarrow> int \<Rightarrow> string set option \<Rightarrow>
     (string \<times> string) set \<Rightarrow> string set \<Rightarrow> (string \<times> APIKeyEntry) list \<Rightarrow>
     string list \<Rightarrow> py_error + selection" where
  "try_models cfg r now today estimated_tokens required_capabilities exclude blocked active [] =
     Inl AllKeysExhaustedError"
| "try_models cfg r now today estimated_tokens required_capabilities exclude blocked active
     (model # rest) =
     (if model \<in> blocked
      then try_models cfg r now today estimated_tokens required_capabilities exclude blocked active rest
      else if truthy_set required_capabilities
              \<and> \<not> (set_of required_capabilities
                     \<subseteq> (case MODEL_CAPABILITIES model of None \<Rightarrow> {} | Some caps \<Rightarrow> caps))
      then try_models cfg r now today estimated_tokens required_capabilities exclude blocked active rest
      else
        (let eligible = eligible_keys active model exclude
         in if eligible = []
            then try_models cfg r now today estimated_tokens required_capabilities exclude blocked active rest
            else
              (case sort_reverse (score_eligible cfg r now today model estimated_tokens eligible) of
                 [] \<Rightarrow>
                   try_models cfg r now today estimated_tokens required_capabilities exclude blocked active rest
               | (best_score, best_hash) # others \<Rightarrow>
                   (case map_of eligible best_hash of
                      None \<Rightarrow> Inl KeyError
                    | Some entry \<Rightarrow> Inr (best_hash, model, email entry, api_key_preview entry)))))"

definition select_best_key_and_model ::
  "router_config \<Rightarrow> key_store \<Rightarrow> rate_store \<Rightarrow> real \<Rightarrow> string \<Rightarrow>
     string option \<Rightarrow> int \<Rightarrow> string set option \<Rightarrow> (string \<times> string) set \<Rightarrow> string set \<Rightarrow>
     py_error + selection" where
  "select_best_key_and_model cfg s r now today preferred_model estimated_tokens
     required_capabilities exclude_pairs blocked_models' =
     (let models_to_try = build_model_order preferred_model required_capabilities
      in case get_active_keys s of
           Inl err \<Rightarrow> Inl err
         | Inr active \<Rightarrow>
             (if active = [] then Inl AllKeysExhaustedError
              else try_models cfg r now today estimated_tokens required_capabilities
                     exclude_pairs blocked_models' active models_to_try))"

section \<open>Fallback loop of the chat route (hydra/api/routes/chat.py)\<close>

text \<open>
  What \<open>gemini_client.generate_content\<close> does in one call: it returns a result with
  its token total, raises \<open>GeminiAPIError\<close> with the HTTP status of the answer, or
  raises anything else (a transport error of the HTTP client, a response that is not
  JSON).
\<close>

datatype upstream_outcome =
    Success int
  | Api_error int
  | Other_exception

text \<open>
  The surroundings of one run of \<open>_generate_with_fallback\<close>: the router's weights, the
  three values derived from the request before the loop starts, the clock reading of
  each attempt (that of \<open>_now_ts()\<close> and that of \<open>_today_pacific()\<close>; one reading
  stands for all the readings of one attempt) and the behaviour of the upstream service
  at each attempt. Attempts are numbered from 1, as \<open>total_attempts\<close> is.
\<close>

record run_context =
  router :: router_config
  preferred_model :: "string option"
  estimated_tokens :: int
  required_caps :: "string set option"
  clock :: "nat \<Rightarrow> real \<times> string"
  upstream :: "nat \<Rightarrow> string \<Rightarrow> string \<Rightarrow> upstream_outcome"

text \<open>
  One entry of the run's history, kept for stating properties of the run: the pair the
  router returned, what happened to the attempt, which call of \<open>update_health\<close> the
  attempt made (none, or the value of \<open>success\<close>), and the key store before and after.
\<close>

datatype attempt_result = No_plain_key | Upstream upstream_outcome

record attempt =
  a_key :: string
  a_model :: string
  a_result :: attempt_result
  a_health_call :: "bool option"
  a_keys_before :: key_store
  a_keys_after :: key_store

text \<open>The local variables of the loop, the two parts of the store, and the history.\<close>

record loop_state =
  failed_pairs :: "(string \<times> string) set"
  failed_models :: "string \<rightharpoonup> nat"
  blocked_models :: "string set"
  last_error :: "py_error option"
  key_db :: key_store
  rate_db :: rate_store
  history :: "attempt list"

datatype run_result =
    Served string int nat
  | Http_429 nat "string set" "py_error option"
  | Raised py_error

datatype step = Continue loop_state | Stop run_result loop_state

definition max_attempts :: nat where "max_attempts = 20"

definition log_attempt ::
  "string \<Rightarrow> string \<Rightarrow> attempt_result \<Rightarrow> bool option \<Rightarrow> key_store \<Rightarrow> loop_state \<Rightarrow> loop_state" where
  "log_attempt kh model res call before st =
     st\<lparr>history := history st @
          [\<lparr>a_key = kh, a_model = model, a_result = res, a_health_call = call,
            a_keys_before = before, a_keys_after = key_db st\<rparr>]\<rparr>"

text \<open>
  The body of the \<open>while\<close> loop at the attempt numbered \<open>total_attempts\<close> (already
  incremented), in two parts: the call of the router, and what follows once the router
  has returned a pair. \<open>Served model tokens fallback_count\<close> is the returned dict;
  \<open>Http_429\<close> is the \<open>HTTPException\<close> raised after the loop, whether the loop ended
  by \<open>break\<close> or by its condition; \<open>Raised\<close> is an exception that no handler of the
  function catches. The store operations themselves and the request log of
  \<open>stats_service\<close> are taken not to fail.
\<close>

definition after_selection ::
  "run_context \<Rightarrow> nat \<Rightarrow> loop_state \<Rightarrow> string \<Rightarrow> string \<Rightarrow> step" where
  "after_selection ctx total_attempts st key_hash model =
     (let now = fst (clock ctx total_attempts);
          today = snd (clock ctx total_attempts);
          excluded = st\<lparr>failed_pairs := insert (key_hash, model) (failed_pairs st)\<rparr>;
          api_key = (case plainkeys (key_db st) key_hash of None \<Rightarrow> [] | Some k \<Rightarrow> k)
      in if api_key = []
         then Continue (log_attempt key_hash model No_plain_key None (key_db st) excluded)
         else
           (case upstream ctx total_attempts api_key model of
              Success total_tokens \<Rightarrow>
                (let recorded = st\<lparr>rate_db :=
                       record_request (rate_db st) now today key_hash model total_tokens\<rparr>
                 in case update_health (key_db st) key_hash True of
                      Inr keys' \<Rightarrow>
                        Stop (Served model total_tokens (total_attempts - 1))
                          (log_attempt key_hash model (Upstream (Success total_tokens))
                             (Some True) (key_db st) (recorded\<lparr>key_db := keys'\<rparr>))
                    | Inl err \<Rightarrow>
                        Continue
                          (log_attempt key_hash model (Upstream (Success total_tokens))
                             (Some True) (key_db st)
                             (recorded\<lparr>failed_pairs := insert (key_hash, model) (failed_pairs st),
                                       last_error := Some err\<rparr>)))
            | Api_error status_code \<Rightarrow>
                (let failed = excluded\<lparr>last_error := Some (GeminiAPIError status_code)\<rparr>
                 in if status_code = 429
                    then
                      (let n = (case failed_models st model of None \<Rightarrow> 0 | Some c \<Rightarrow> c) + 1;
                           counted = failed\<lparr>failed_models := (failed_models st)(model \<mapsto> n)\<rparr>;
                           blocked = (if n \<ge> 2
                                      then counted\<lparr>blocked_models := insert model (blocked_models st)\<rparr>
                                      else counted)
                       in Continue
                            (log_attempt key_hash model (Upstream (Api_error status_code))
                               None (key_db st) blocked))
                    else
                      (case update_health (key_db st) key_hash False of
                         Inr keys' \<Rightarrow>
                           Continue
                             (log_attempt key_hash model (Upstream (Api_error status_code))
                                (Some False) (key_db st) (failed\<lparr>key_db := keys'\<rparr>))
                       | Inl err \<Rightarrow>
                           Stop (Raised err)
                             (log_attempt key_hash model (Upstream (Api_error status_code))
                                (Some False) (key_db st) failed)))
            | Other_exception \<Rightarrow>
                Continue
                  (log_attempt key_hash model (Upstream Other_exception) None (key_db st)
                     (excluded\<lparr>last_error := Some Unexpected_exception\<rparr>))))"

definition attempt_body :: "run_context \<Rightarrow> nat \<Rightarrow> loop_state \<Rightarrow> step" where
  "attempt_body ctx total_attempts st =
     (case select_best_key_and_model (router ctx) (key_db st) (rate_db st)
             (fst (clock ctx total_attempts)) (snd (clock ctx total_attempts))
             (preferred_model ctx) (estimated_tokens ctx)
             (if truthy_set (required_caps ctx) then required_caps ctx else None)
             (failed_pairs st) (blocked_models st) of
        Inl AllKeysExhaustedError \<Rightarrow>
          Stop (Http_429 total_attempts (blocked_models st) (last_error st)) st
      | Inl err \<Rightarrow> Stop (Raised err) st
      | Inr (key_hash, model, email', preview) \<Rightarrow>
          after_selection ctx total_attempts st key_hash model)"

text \<open>
  The loop. Besides the outcome and the final state it returns the value that
  \<open>total_attempts\<close> has when the function is left, that is the number of iterations
  begun.
\<close>

function fallback_loop ::
  "run_context \<Rightarrow> nat \<Rightarrow> loop_state \<Rightarrow> run_result \<times> nat \<times> loop_state" where
  "fallback_loop ctx total_attempts st =
     (if total_attempts < max_attempts
      then
        (case attempt_body ctx (total_attempts + 1) st of
           Continue st' \<Rightarrow> fallback_loop ctx (total_attempts + 1) st'
         | Stop res st' \<Rightarrow> (res, total_attempts + 1, st'))
      else (Http_429 total_attempts (blocked_models st) (last_error st), total_attempts, st))"
  by pat_completeness auto
termination
  by (relation "measure (\<lambda>(ctx, total_attempts, st). max_attempts - total_attempts)") auto

definition initial_state :: "key_store \<Rightarrow> rate_store \<Rightarrow> loop_state" where
  "initial_state ks rs =
     \<lparr>failed_pairs = {}, failed_models = Map.empty, blocked_models = {}, last_error = None,
      key_db = ks, rate_db = rs, history = []\<rparr>"

definition generate_with_fallback ::
  "run_context \<Rightarrow> key_store \<Rightarrow> rate_store \<Rightarrow> run_result \<times> nat \<times> loop_state" where
  "generate_with_fallback ctx ks rs = fallback_loop ctx 0 (initial_state ks rs)"

subsection \<open>Notions for the properties of a run\<close>

definition pair_of :: "attempt \<Rightarrow> string \<times> string" where
  "pair_of a = (a_key a, a_model a)"

definition is_429 :: "attempt \<Rightarrow> bool" where
  "is_429 a = (a_result a = Upstream (Api_error 429))"

text \<open>How many attempts of a history failed with status 429 on a given model.\<close>

definition count_429 :: "string \<Rightarrow> attempt list \<Rightarrow> nat" where
  "count_429 m h = length (filter (\<lambda>a. a_model a = m \<and> is_429 a) h)"

definition failed_count :: "loop_state \<Rightarrow> string \<Rightarrow> nat" where
  "failed_count st m = (case failed_models st m of None \<Rightarrow> 0 | Some c \<Rightarrow> c)"

text \<open>
  \<open>logged st a st'\<close>: the attempt \<open>a\<close> took the loop from \<open>st\<close> to \<open>st'\<close>; only a 429
  touches the counters and the blocked models, and neither a 429 nor an unexpected
  exception touches the key store.
\<close>

definition logged :: "loop_state \<Rightarrow> attempt \<Rightarrow> loop_state \<Rightarrow> bool" where
  "logged st a st' \<longleftrightarrow>
     history st' = history st @ [a]
   \<and> failed_pairs st \<subseteq> failed_pairs st'
   \<and> a_keys_before a = key_db st \<and> a_keys_after a = key_db st'
   \<and> (if is_429 a
       then failed_models st' = (failed_models st)(a_model a \<mapsto> failed_count st (a_model a) + 1)
          \<and> blocked_models st' =
              (if failed_count st (a_model a) + 1 \<ge> 2
               then insert (a_model a) (blocked_models st) else blocked_models st)
          \<and> key_db st' = key_db st \<and> a_health_call a = None
       else failed_models st' = failed_models st \<and> blocked_models st' = blocked_models st)
   \<and> (if a_result a = Upstream Other_exception
       then key_db st' = key_db st \<and> a_health_call a = None
          \<and> last_error st' = Some Unexpected_exception
       else True)"

definition all_excluded :: "loop_state \<Rightarrow> bool" where
  "all_excluded st \<longleftrightarrow> pair_of ` set (history st) \<subseteq> failed_pairs st"

definition run_inv :: "loop_state \<Rightarrow> bool" where
  "run_inv st \<longleftrightarrow>
     distinct (map pair_of (history st))
   \<and> (\<forall>m. count_429 m (history st) = failed_count st m)
   \<and> (\<forall>m. 2 \<le> count_429 m (history st) \<longrightarrow> m \<in> blocked_models st)
   \<and> (\<forall>k < length (history st). \<forall>m.
         2 \<le> count_429 m (take k (history st)) \<longrightarrow> a_model (history st ! k) \<noteq> m)
   \<and> (\<forall>a \<in> set (history st). is_429 a \<longrightarrow>
         a_health_call a = None \<and> a_keys_after a = a_keys_before a)
   \<and> (\<forall>a \<in> set (history st). a_result a = Upstream Other_exception \<longrightarrow>
         a_health_call a = None \<and> a_keys_after a = a_keys_before a)"

section \<open>Example states\<close>

text \<open>A rate window of key \<open>k1\<close> on \<open>gemini-2.5-flash\<close> whose daily counter stands at
  the limit and was last reset on 2026-02-01; the clock of the examples reads 1000.\<close>

definition example_window :: rate_hash where
  "example_window =
     \<lparr>requests = Decoded [900, 950, 990],
      tokens = Decoded [\<lparr>ts = 900, count = 40\<rparr>, \<lparr>ts = 990, count = 70\<rparr>],
      rpd_count = Some 1500, last_rpd_reset = Some ''2026-02-01'',
      rpm_limit = Some 15, rpd_limit = Some 1500, tpm_limit = Some 1000000\<rparr>"

definition example_rates :: rate_store where
  "example_rates = [(rkey ''k1'' GEMINI_25_FLASH, example_window)]"

text \<open>A key store with the single key \<open>k1\<close>, four consecutive errors behind it.\<close>

definition example_entry :: APIKeyEntry where
  "example_entry =
     \<lparr>entry_id = ''e1'', email = ''a@example.org'', api_key_preview = ''...abcdef'',
      project_id = ''p1'', created_at = 0, last_validated = None, is_active = True,
      health_score = 98, consecutive_errors = 4,
      available_models = [GEMINI_25_PRO, GEMINI_25_FLASH], entry_notes = []\<rparr>"

definition example_keys :: key_store where
  "example_keys =
     \<lparr>apikeys = [(''k1'', Entry_json example_entry)], active_keys = {''k1''},
      plainkeys = [''k1'' \<mapsto> ''raw-key-1'']\<rparr>"

text \<open>The same key after its fifth consecutive error, and a stand-in for SHA-256.\<close>

definition disabled_entry :: APIKeyEntry where
  "disabled_entry = example_entry\<lparr>is_active := False, health_score := 40, consecutive_errors := 5\<rparr>"

definition disabled_keys :: key_store where
  "disabled_keys =
     \<lparr>apikeys = [(''k1'', Entry_json disabled_entry)], active_keys = {},
      plainkeys = [''k1'' \<mapsto> ''k1-raw-key'']\<rparr>"

definition example_hash :: "string \<Rightarrow> string" where
  "example_hash raw_key = take 2 raw_key"

text \<open>Two active keys of equal health that both offer \<open>gemini-2.5-flash\<close>, with no
  request recorded for either.\<close>

definition entry_a :: APIKeyEntry where
  "entry_a = example_entry\<lparr>entry_id := ''ea'', email := ''a@example.org'',
     api_key_preview := ''...aaaaaa'', health_score := 100, consecutive_errors := 0,
     available_models := [GEMINI_25_FLASH]\<rparr>"

definition entry_b :: APIKeyEntry where
  "entry_b = example_entry\<lparr>entry_id := ''eb'', email := ''b@example.org'',
     api_key_preview := ''...bbbbbb'', health_score := 100, consecutive_errors := 0,
     available_models := [GEMINI_25_FLASH]\<rparr>"

definition two_keys :: key_store where
  "two_keys =
     \<lparr>apikeys = [(''0a1f'', Entry_json entry_a), (''f3c2'', Entry_json entry_b)],
      active_keys = {''0a1f'', ''f3c2''},
      plainkeys = [''0a1f'' \<mapsto> ''raw-a'', ''f3c2'' \<mapsto> ''raw-b'']\<rparr>"

text \<open>Two active keys of equal health that both offer \<open>gemini-2.5-flash\<close> and
  \<open>gemini-2.5-flash-lite\<close>, with no request recorded for either.\<close>

definition entry_c :: APIKeyEntry where
  "entry_c = example_entry\<lparr>entry_id := ''ec'', email := ''c@example.org'',
     api_key_preview := ''...cccccc'', health_score := 100, consecutive_errors := 0,
     available_models := [GEMINI_25_FLASH, GEMINI_25_FLASH_LITE]\<rparr>"

definition entry_d :: APIKeyEntry where
  "entry_d = example_entry\<lparr>entry_id := ''ed'', email := ''d@example.org'',
     api_key_preview := ''...dddddd'', health_score := 100, consecutive_errors := 0,
     available_models := [GEMINI_25_FLASH, GEMINI_25_FLASH_LITE]\<rparr>"

definition wide_keys :: key_store where
  "wide_keys =
     \<lparr>apikeys = [(''1b2e'', Entry_json entry_c), (''e4d3'', Entry_json entry_d)],
      active_keys = {''1b2e'', ''e4d3''},
      plainkeys = [''1b2e'' \<mapsto> ''raw-c'', ''e4d3'' \<mapsto> ''raw-d'']\<rparr>"

text \<open>A clock that stands still during a run.\<close>

definition example_clock :: "nat \<Rightarrow> real \<times> string" where
  "example_clock n = (1000, ''2026-02-02'')"

text \<open>A request with no preferred model and no required capability, at a time when the
  upstream service answers 429 to every call on \<open>gemini-2.5-flash\<close> and the connection
  breaks on every call on another model; the four attempts of its run on \<open>wide_keys\<close>
  and the state in which the run ends.\<close>

definition mixed_ctx :: run_context where
  "mixed_ctx =
     \<lparr>router = default_router, preferred_model = None, estimated_tokens = 100,
      required_caps = None, clock = example_clock,
      upstream = (\<lambda>n api_key model.
         if model = GEMINI_25_FLASH then Api_error 429 else Other_exception)\<rparr>"

definition mixed_attempt_1 :: attempt where
  "mixed_attempt_1 =
     \<lparr>a_key = ''e4d3'', a_model = GEMINI_25_FLASH, a_result = Upstream (Api_error 429),
      a_health_call = None, a_keys_before = wide_keys, a_keys_after = wide_keys\<rparr>"

definition mixed_attempt_2 :: attempt where
  "mixed_attempt_2 =
     \<lparr>a_key = ''1b2e'', a_model = GEMINI_25_FLASH, a_result = Upstream (Api_error 429),
      a_health_call = None, a_keys_before = wide_keys, a_keys_after = wide_keys\<rparr>"

definition mixed_attempt_3 :: attempt where
  "mixed_attempt_3 =
     \<lparr>a_key = ''e4d3'', a_model = GEMINI_25_FLASH_LITE, a_result = Upstream Other_exception,
      a_health_call = None, a_keys_before = wide_keys, a_keys_after = wide_keys\<rparr>"

definition mixed_attempt_4 :: attempt where
  "mixed_attempt_4 =
     \<lparr>a_key = ''1b2e'', a_model = GEMINI_25_FLASH_LITE, a_result = Upstream Other_exception,
      a_health_call = None, a_keys_before = wide_keys, a_keys_after = wide_keys\<rparr>"

definition mixed_state_1 :: loop_state where
  "mixed_state_1 =
     \<lparr>failed_pairs = {(''e4d3'', GEMINI_25_FLASH)},
      failed_models = [GEMINI_25_FLASH \<mapsto> 1], blocked_models = {},
      last_error = Some (GeminiAPIError 429), key_db = wide_keys, rate_db = [],
      history = [mixed_attempt_1]\<rparr>"

definition mixed_state_2 :: loop_state where
  "mixed_state_2 =
     \<lparr>failed_pairs = {(''1b2e'', GEMINI_25_FLASH), (''e4d3'', GEMINI_25_FLASH)},
      failed_models = [GEMINI_25_FLASH \<mapsto> 2], blocked_models = {GEMINI_25_FLASH},
      last_error = Some (GeminiAPIError 429), key_db = wide_keys, rate_db = [],
      history = [mixed_attempt_1, mixed_attempt_2]\<rparr>"

definition mixed_state_3 :: loop_state where
  "mixed_state_3 =
     \<lparr>failed_pairs = {(''e4d3'', GEMINI_25_FLASH_LITE), (''1b2e'', GEMINI_25_FLASH),
                       (''e4d3'', GEMINI_25_FLASH)},
      failed_models = [GEMINI_25_FLASH \<mapsto> 2], blocked_models = {GEMINI_25_FLASH},
      last_error = Some Unexpected_exception, key_db = wide_keys, rate_db = [],
      history = [mixed_attempt_1, mixed_attempt_2, mixed_attempt_3]\<rparr>"

definition mixed_final :: loop_state where
  "mixed_final =
     \<lparr>failed_pairs = {(''1b2e'', GEMINI_25_FLASH_LITE), (''e4d3'', GEMINI_25_FLASH_LITE),
                       (''1b2e'', GEMINI_25_FLASH), (''e4d3'', GEMINI_25_FLASH)},
      failed_models = [GEMINI_25_FLASH \<mapsto> 2], blocked_models = {GEMINI_25_FLASH},
      last_error = Some Unexpected_exception, key_db = wide_keys, rate_db = [],
      history = [mixed_attempt_1, mixed_attempt_2, mixed_attempt_3, mixed_attempt_4]\<rparr>"

text \<open>A request that prefers \<open>gemini-2.5-flash\<close>, at a time when the connection to the
  upstream service breaks on every call; the two attempts of its run on \<open>two_keys\<close>,
  the state in which the run ends, and the key store that a failure recorded against
  \<open>f3c2\<close> would have left.\<close>

definition flaky_ctx :: run_context where
  "flaky_ctx =
     \<lparr>router = default_router, preferred_model = Some GEMINI_25_FLASH, estimated_tokens = 100,
      required_caps = None, clock = example_clock,
      upstream = (\<lambda>n api_key model. Other_exception)\<rparr>"

definition flaky_attempt_1 :: attempt where
  "flaky_attempt_1 =
     \<lparr>a_key = ''f3c2'', a_model = GEMINI_25_FLASH, a_result = Upstream Other_exception,
      a_health_call = None, a_keys_before = two_keys, a_keys_after = two_keys\<rparr>"

definition flaky_attempt_2 :: attempt where
  "flaky_attempt_2 =
     \<lparr>a_key = ''0a1f'', a_model = GEMINI_25_FLASH, a_result = Upstream Other_exception,
      a_health_call = None, a_keys_before = two_keys, a_keys_after = two_keys\<rparr>"

definition flaky_state_1 :: loop_state where
  "flaky_state_1 =
     \<lparr>failed_pairs = {(''f3c2'', GEMINI_25_FLASH)},
      failed_models = Map.empty, blocked_models = {},
      last_error = Some Unexpected_exception, key_db = two_keys, rate_db = [],
      history = [flaky_attempt_1]\<rparr>"

definition flaky_final :: loop_state where
  "flaky_final =
     \<lparr>failed_pairs = {(''0a1f'', GEMINI_25_FLASH), (''f3c2'', GEMINI_25_FLASH)},
      failed_models = Map.empty, blocked_models = {},
      last_error = Some Unexpected_exception, key_db = two_keys, rate_db = [],
      history = [flaky_attempt_1, flaky_attempt_2]\<rparr>"

definition penalised_keys :: key_store where
  "penalised_keys =
     two_keys\<lparr>apikeys :=
       [(''0a1f'', Entry_json entry_a),
        (''f3c2'', Entry_json (entry_b\<lparr>health_score := 90, consecutive_errors := 1\<rparr>))]\<rparr>"

text \<open>A request that prefers \<open>gemini-2.5-flash\<close>, at a time when the upstream service
  answers every call with a result of 42 tokens; the only attempt of its run on
  \<open>two_keys\<close> and the state in which the run ends.\<close>

definition steady_ctx :: run_context where
  "steady_ctx =
     \<lparr>router = default_router, preferred_model = Some GEMINI_25_FLASH, estimated_tokens = 100,
      required_caps = None, clock = example_clock,
      upstream = (\<lambda>n api_key model. Success 42)\<rparr>"

definition steady_attempt_1 :: attempt where
  "steady_attempt_1 =
     \<lparr>a_key = ''f3c2'', a_model = GEMINI_25_FLASH, a_result = Upstream (Success 42),
      a_health_call = Some True, a_keys_before = two_keys, a_keys_after = two_keys\<rparr>"

definition steady_final :: loop_state where
  "steady_final =
     \<lparr>failed_pairs = {}, failed_models = Map.empty, blocked_models = {},
      last_error = None, key_db = two_keys,
      rate_db = record_request [] 1000 ''2026-02-02'' ''f3c2'' GEMINI_25_FLASH 42,
      history = [steady_attempt_1]\<rparr>"

text \<open>A server with so few keys that every \<open>SCAN\<close> is answered with the cursor 0 and all
  the keys that match \<open>ratelimit:*\<close>.\<close>

definition single_batch_scan :: scan_reply where
  "single_batch_scan r cursor =
     (0, filter (prefix (REDIS_KEY_RATELIMIT @ '':'')) (map fst r))"

text \<open>Two keys that exact arithmetic would score alike on \<open>gemini-2.5-flash\<close>: \<open>0a1f\<close> with
  health 90 and 3 requests today, \<open>f3c2\<close> with health 91 and 33 requests today.\<close>

definition uneven_keys :: key_store where
  "uneven_keys =
     \<lparr>apikeys = [(''0a1f'', Entry_json (entry_a\<lparr>health_score := 90\<rparr>)),
                 (''f3c2'', Entry_json (entry_b\<lparr>health_score := 91\<rparr>))],
      active_keys = {''0a1f'', ''f3c2''},
      plainkeys = [''0a1f'' \<mapsto> ''raw-a'', ''f3c2'' \<mapsto> ''raw-b'']\<rparr>"

definition used_today :: "int \<Rightarrow> rate_hash" where
  "used_today n =
     \<lparr>requests = Decoded [], tokens = Decoded [],
      rpd_count = Some n, last_rpd_reset = Some ''2026-02-02'',
      rpm_limit = Some 15, rpd_limit = Some 1500, tpm_limit = Some 1000000\<rparr>"

definition uneven_rates :: rate_store where
  "uneven_rates =
     [(rkey ''0a1f'' GEMINI_25_FLASH, used_today 3), (rkey ''f3c2'' GEMINI_25_FLASH, used_today 33)]"

section \<open>Properties of the rate limiter\<close>

lemma hgetall_update_same: "hgetall (AList.update k v r) k = v"
  by (simp add: hgetall_def update_conv')

lemma hgetall_update_other: "k' \<noteq> k \<Longrightarrow> hgetall (AList.update k v r) k' = hgetall r k'"
  by (simp add: hgetall_def update_conv')

lemma catalog_rpd_positive: "MODEL_RATE_LIMITS m = Some lims \<Longrightarrow> 0 < rpd lims"
  by (auto simp: MODEL_RATE_LIMITS_def model_ids split: if_splits)

lemma flash_limits:
  "MODEL_RATE_LIMITS GEMINI_25_FLASH = Some \<lparr>rpm = 15, rpd = 1500, tpm = 1000000\<rparr>"
  by (simp add: MODEL_RATE_LIMITS_def model_ids)

lemma example_hgetall: "hgetall example_rates (rkey ''k1'' GEMINI_25_FLASH) = example_window"
  by (simp add: hgetall_def example_rates_def)

text \<open>
  Claim C6. When the date stored in \<open>last_rpd_reset\<close> differs from today's date of the
  quota zone, \<open>check_rate_limit\<close> answers as it would on the same window with the daily
  counter 0 and today's date, so it never blocks for the daily limit (every limit of the
  table is positive); and after \<open>record_request\<close> the stored counter is 1 and the stored
  date is today's.
\<close>

theorem c6_daily_boundary:
  assumes "stored_last_reset (hgetall r (rkey key_hash model)) \<noteq> today"
  shows "check_rate_limit r now today key_hash model est =
           check_rate_limit
             (AList.update (rkey key_hash model)
                ((hgetall r (rkey key_hash model))\<lparr>rpd_count := Some 0, last_rpd_reset := Some today\<rparr>) r)
             now today key_hash model est
       \<and> snd (check_rate_limit r now today key_hash model est) \<noteq> Some (RPD_limit_reached x)
       \<and> rpd_count (hgetall (record_request r now today key_hash model tokens_used)
            (rkey key_hash model)) = Some 1
       \<and> last_rpd_reset (hgetall (record_request r now today key_hash model tokens_used)
            (rkey key_hash model)) = Some today"
proof -
  have same_answer: "check_rate_limit r now today key_hash model est =
           check_rate_limit
             (AList.update (rkey key_hash model)
                ((hgetall r (rkey key_hash model))\<lparr>rpd_count := Some 0, last_rpd_reset := Some today\<rparr>) r)
             now today key_hash model est"
    using assms
    by (simp add: check_rate_limit_def hgetall_update_same stored_last_reset_def
          stored_rpd_count_def Let_def split: option.splits)
  have never_rpd: "snd (check_rate_limit r now today key_hash model est) \<noteq> Some (RPD_limit_reached x)"
    using assms
    by (auto simp: check_rate_limit_def Let_def dest: catalog_rpd_positive
          split: option.splits if_splits)
  have counter: "rpd_count (hgetall (record_request r now today key_hash model tokens_used)
            (rkey key_hash model)) = Some 1"
    using assms by (simp add: record_request_def Let_def hgetall_update_same)
  have stamp: "last_rpd_reset (hgetall (record_request r now today key_hash model tokens_used)
            (rkey key_hash model)) = Some today"
    by (simp add: record_request_def Let_def hgetall_update_same)
  from same_answer never_rpd counter stamp show ?thesis by blast
qed

theorem c6_daily_boundary_witness:
  "stored_last_reset (hgetall example_rates (rkey ''k1'' GEMINI_25_FLASH)) \<noteq> ''2026-02-02''
   \<and> check_rate_limit example_rates 1000 ''2026-02-02'' ''k1'' GEMINI_25_FLASH 100 = (True, None)
   \<and> rpd_count (hgetall (record_request example_rates 1000 ''2026-02-02'' ''k1'' GEMINI_25_FLASH 150)
        (rkey ''k1'' GEMINI_25_FLASH)) = Some 1
   \<and> check_rate_limit example_rates 1000 ''2026-02-01'' ''k1'' GEMINI_25_FLASH 100
        = (False, Some (RPD_limit_reached 1500))"
proof -
  have h: "stored_last_reset (hgetall example_rates (rkey ''k1'' GEMINI_25_FLASH)) \<noteq> ''2026-02-02''"
    by (simp add: example_hgetall example_window_def stored_last_reset_def)
  have ok: "check_rate_limit example_rates 1000 ''2026-02-02'' ''k1'' GEMINI_25_FLASH 100 = (True, None)"
    by (simp add: check_rate_limit_def example_hgetall example_window_def stored_last_reset_def
          stored_rpd_count_def flash_limits Let_def)
  have same_day: "check_rate_limit example_rates 1000 ''2026-02-01'' ''k1'' GEMINI_25_FLASH 100
        = (False, Some (RPD_limit_reached 1500))"
    by (simp add: check_rate_limit_def example_hgetall example_window_def stored_last_reset_def
          stored_rpd_count_def flash_limits Let_def)
  from h ok same_day c6_daily_boundary [OF h, of 1000 100 0 150]
  show ?thesis by simp
qed

text \<open>
  Claim C7. For a model of the table, \<open>check_rate_limit\<close> tests the three limits in the
  order RPM, RPD, TPM and reports the first one that is hit: RPM when the number of
  stored time stamps later than \<open>now - 60\<close> has reached the RPM limit; otherwise RPD when
  the daily counter (0 after a change of date) has reached the RPD limit; otherwise TPM
  when the tokens recorded later than \<open>now - 60\<close> plus the estimate exceed the TPM limit;
  otherwise it lets the request pass.
\<close>

theorem c7_check_order:
  assumes "MODEL_RATE_LIMITS model = Some lims"
  shows "(let raw = hgetall r (rkey key_hash model);
              res = check_rate_limit r now today key_hash model est;
              rpm_hit = (int (length (filter (\<lambda>t. t > now - 60) (loads_or_empty (requests raw))))
                           \<ge> rpm lims);
              rpd_hit = ((if stored_last_reset raw \<noteq> today then 0 else stored_rpd_count raw)
                           \<ge> rpd lims);
              tpm_hit = (sum_list (map count (filter (\<lambda>e. ts e > now - 60)
                                     (loads_or_empty (tokens raw)))) + est > tpm lims)
          in (res = (False, Some (RPM_limit_reached (rpm lims))) \<longleftrightarrow> rpm_hit)
           \<and> (res = (False, Some (RPD_limit_reached (rpd lims))) \<longleftrightarrow> \<not> rpm_hit \<and> rpd_hit)
           \<and> (res = (False, Some (TPM_limit_exceeded (tpm lims)))
                \<longleftrightarrow> \<not> rpm_hit \<and> \<not> rpd_hit \<and> tpm_hit)
           \<and> (res = (True, None) \<longleftrightarrow> \<not> rpm_hit \<and> \<not> rpd_hit \<and> \<not> tpm_hit)
           \<and> (res \<in> {(False, Some (RPM_limit_reached (rpm lims))),
                       (False, Some (RPD_limit_reached (rpd lims))),
                       (False, Some (TPM_limit_exceeded (tpm lims))), (True, None)}))"
  using assms by (simp add: check_rate_limit_def Let_def)

theorem c7_check_order_witness:
  "MODEL_RATE_LIMITS GEMINI_25_FLASH = Some \<lparr>rpm = 15, rpd = 1500, tpm = 1000000\<rparr>
   \<and> check_rate_limit example_rates 1000 ''2026-02-01'' ''k1'' GEMINI_25_FLASH 100
        = (False, Some (RPD_limit_reached 1500))
   \<and> check_rate_limit example_rates 1000 ''2026-02-01'' ''k1'' GEMINI_25_FLASH 100
        \<noteq> (False, Some (RPM_limit_reached 15))"
  using c7_check_order [OF flash_limits, of example_rates "''k1''" 1000 "''2026-02-01''" 100]
  by (simp add: flash_limits Let_def example_hgetall example_window_def stored_last_reset_def
        stored_rpd_count_def)

text \<open>
  Claim C8. After \<open>cleanup_old_data\<close> every time stamp left in the stored request list
  and every entry left in the stored token list is later than \<open>now - 60\<close>, and the daily
  counter and its date are what they were.
\<close>

theorem c8_cleanup_window:
  "(let raw = hgetall r (rkey key_hash model);
        raw' = hgetall (cleanup_old_data r now key_hash model) (rkey key_hash model)
    in (\<forall>t \<in> set (loads_or_empty (requests raw')). t > now - 60)
     \<and> (\<forall>e \<in> set (loads_or_empty (tokens raw')). ts e > now - 60)
     \<and> requests raw' \<noteq> Undecodable \<and> tokens raw' \<noteq> Undecodable
     \<and> rpd_count raw' = rpd_count raw
     \<and> last_rpd_reset raw' = last_rpd_reset raw)"
  by (simp add: cleanup_old_data_def Let_def hgetall_update_same empty_hash_def)

theorem c8_cleanup_window_witness:
  "hgetall (cleanup_old_data example_rates 1000 ''k1'' GEMINI_25_FLASH) (rkey ''k1'' GEMINI_25_FLASH)
     = example_window\<lparr>requests := Decoded [950, 990],
                      tokens := Decoded [\<lparr>ts = 990, count = 70\<rparr>]\<rparr>
   \<and> (950 :: real) > 1000 - 60"
  using c8_cleanup_window [of example_rates "''k1''" GEMINI_25_FLASH 1000]
  by (simp add: cleanup_old_data_def Let_def example_hgetall hgetall_update_same
        example_window_def empty_hash_def)

lemma hgetall_hset_rpd_count:
  "hgetall (hset_rpd_count k n r) k' =
     (if k' = k then (hgetall r k)\<lparr>rpd_count := Some n\<rparr> else hgetall r k')"
  by (simp add: hset_rpd_count_def hgetall_update_same hgetall_update_other)

lemma hgetall_fold_reset:
  "hgetall (fold (\<lambda>k. hset_rpd_count k 0) ks r) k' =
     (if k' \<in> set ks then (hgetall r k')\<lparr>rpd_count := Some 0\<rparr> else hgetall r k')"
  by (induction ks arbitrary: r) (auto simp: hgetall_hset_rpd_count)

text \<open>
  Each pass does to the store what claim C10 describes: the records of the batch get
  \<open>rpd_count\<close> 0, every other field of every record stays, and the counter goes up by
  the size of the batch; and the cursor it leaves is an \<open>int\<close>.
\<close>

lemma scan_pass_frame:
  assumes "scan_pass scan cursor n r = (cursor', n', r')"
  shows "cursor' = Cursor_int (fst (scan r cursor))
       \<and> n' = n + length (snd (scan r cursor))
       \<and> hgetall r' k =
           (if k \<in> set (snd (scan r cursor)) then (hgetall r k)\<lparr>rpd_count := Some 0\<rparr>
            else hgetall r k)"
  using assms by (auto simp: scan_pass_def hgetall_fold_reset split: prod.splits)

lemma scan_pass_cursor: "fst (scan_pass scan cursor n r) \<noteq> Cursor_str s"
  by (simp add: scan_pass_def split: prod.splits)

lemma reset_rpd_loop_Some:
  assumes ret: "reset_rpd_loop scan cursor n r = Some y"
  shows False
proof (rule reset_rpd_loop.raw_induct [where P = "\<lambda>scan cursor n r y. False", OF _ ret])
  fix f :: "scan_reply \<Rightarrow> py_cursor \<Rightarrow> nat \<Rightarrow> rate_store \<Rightarrow> (nat \<times> rate_store) option"
  fix scan cursor n r y
  assume IH: "\<And>scan cursor n r y. f scan cursor n r = Some y \<Longrightarrow> False"
    and step: "(case scan_pass scan cursor n r of
                 (cursor', n', r') \<Rightarrow>
                   if cursor' = Cursor_str ''0'' then Some (n', r')
                   else f scan cursor' n' r') = Some y"
  obtain c' n' r' where pass: "scan_pass scan cursor n r = (c', n', r')"
    by (cases "scan_pass scan cursor n r") auto
  from scan_pass_cursor [of scan cursor n r "''0''"] pass have "c' \<noteq> Cursor_str ''0''"
    by simp
  with step pass have "f scan c' n' r' = Some y"
    by simp
  then show False by (rule IH)
qed

lemma reset_rpd_loop_None: "reset_rpd_loop scan cursor n r = None"
  using reset_rpd_loop_Some [of scan cursor n r] by (cases "reset_rpd_loop scan cursor n r") auto

text \<open>
  Claim C10 fails on the code: whatever the server answers and whatever the store
  holds, \<open>reset_rpd_all\<close> does not return, so it returns no count. The test
  \<open>cursor == "0"\<close> compares an \<open>int\<close> with a \<open>str\<close> and never holds, and the loop has no
  other way out.
\<close>

theorem c10_reset_rpd_all_never_returns: "reset_rpd_all scan r = None"
  by (simp add: reset_rpd_all_def reset_rpd_loop_None)

theorem c10_reset_rpd_all_never_returns_witness:
  "reset_rpd_all single_batch_scan example_rates = None
   \<and> scan_pass single_batch_scan (Cursor_str ''0'') 0 example_rates
       = (Cursor_int 0, 1, [(rkey ''k1'' GEMINI_25_FLASH, example_window\<lparr>rpd_count := Some 0\<rparr>)])
   \<and> Cursor_int 0 \<noteq> Cursor_str ''0''"
  using c10_reset_rpd_all_never_returns [of single_batch_scan example_rates]
  by (simp add: scan_pass_def single_batch_scan_def hset_rpd_count_def hgetall_def
        example_rates_def rkey_def REDIS_KEY_RATELIMIT_def)

section \<open>Properties of the key service\<close>

lemma map_of_update_same: "map_of (AList.update k v al) k = Some v"
  by (simp add: update_conv')

text \<open>
  Claim C5. On a stored entry, \<open>update_health\<close> with \<open>success = True\<close> stores the health
  \<open>min 100 (health + 5)\<close> and zero consecutive errors; with \<open>success = False\<close> it stores
  the health \<open>max 0 (health - 10)\<close> and one more consecutive error, and once that
  counter is 5 or more the entry is stored inactive and its hash leaves \<open>active_keys\<close>.
\<close>

theorem c5_update_health:
  assumes "map_of (apikeys s) key_hash = Some (Entry_json e)"
  shows "(\<exists>s'. update_health s key_hash True = Inr s'
            \<and> map_of (apikeys s') key_hash =
                Some (Entry_json (e\<lparr>health_score := min 100 (health_score e + 5),
                                    consecutive_errors := 0\<rparr>))
            \<and> active_keys s' = active_keys s)
       \<and> (\<exists>s' e'. update_health s key_hash False = Inr s'
            \<and> map_of (apikeys s') key_hash = Some (Entry_json e')
            \<and> health_score e' = max 0 (health_score e - 10)
            \<and> consecutive_errors e' = consecutive_errors e + 1
            \<and> (if consecutive_errors e + 1 \<ge> 5
                then \<not> is_active e' \<and> key_hash \<notin> active_keys s'
                else is_active e' = is_active e \<and> active_keys s' = active_keys s))"
  using assms
  by (simp add: update_health_def health_consts Let_def map_of_update_same)

theorem c5_update_health_witness:
  "map_of (apikeys example_keys) ''k1'' = Some (Entry_json example_entry)
   \<and> update_health example_keys ''k1'' True =
       Inr (example_keys\<lparr>apikeys :=
              [(''k1'', Entry_json (example_entry\<lparr>health_score := 100, consecutive_errors := 0\<rparr>))]\<rparr>)
   \<and> update_health example_keys ''k1'' False =
       Inr (example_keys\<lparr>apikeys :=
              [(''k1'', Entry_json (example_entry\<lparr>health_score := 88, consecutive_errors := 5,
                                                    is_active := False\<rparr>))],
              active_keys := {}\<rparr>)"
proof -
  have h: "map_of (apikeys example_keys) ''k1'' = Some (Entry_json example_entry)"
    by (simp add: example_keys_def)
  from h c5_update_health [OF h] show ?thesis
    by (simp add: update_health_def health_consts Let_def example_keys_def example_entry_def)
qed

text \<open>
  Claim C9. \<open>add_api_key\<close> on a key whose hash already has a stored entry stores the
  union of the old and the new models, keeps the health score and the count of
  consecutive errors, and makes the entry active, in the record and in \<open>active_keys\<close>.
  \<open>update_models\<close> on a stored entry leaves exactly the given models stored, and where
  they differ from the old ones the stored list is the given list.
\<close>

theorem c9_merge_vs_replace:
  assumes "map_of (apikeys s) (hash_key api_key) = Some (Entry_json e)"
      and "map_of (apikeys s) key_hash = Some (Entry_json e2)"
  shows "(\<exists>s' e'. add_api_key hash_key utcnow new_id s api_key em models nt pid
                    = (hash_key api_key, s')
            \<and> map_of (apikeys s') (hash_key api_key) = Some (Entry_json e')
            \<and> set (available_models e') = set (available_models e) \<union> set models
            \<and> health_score e' = health_score e
            \<and> consecutive_errors e' = consecutive_errors e
            \<and> is_active e'
            \<and> hash_key api_key \<in> active_keys s')
       \<and> (\<exists>changed s' e'. update_models utcnow s key_hash models = Inr (changed, s')
            \<and> map_of (apikeys s') key_hash = Some (Entry_json e')
            \<and> set (available_models e') = set models
            \<and> (if set (available_models e2) \<noteq> set models
                then changed \<and> available_models e' = models
                else \<not> changed \<and> s' = s))"
  using assms
  by (auto simp: add_api_key_def update_models_def Let_def map_of_update_same)

theorem c9_merge_vs_replace_witness:
  "map_of (apikeys disabled_keys) (example_hash ''k1-raw-key'') = Some (Entry_json disabled_entry)
   \<and> map_of (apikeys disabled_keys) ''k1'' = Some (Entry_json disabled_entry)
   \<and> add_api_key example_hash 7 ''e2'' disabled_keys ''k1-raw-key''
         ''b@example.org'' [GEMINI_25_FLASH, GEMINI_25_FLASH_LITE] [] [] =
       (''k1'', disabled_keys
          \<lparr>apikeys :=
             [(''k1'', Entry_json (disabled_entry
                 \<lparr>available_models := [GEMINI_25_PRO, GEMINI_25_FLASH, GEMINI_25_FLASH_LITE],
                  email := ''b@example.org'', last_validated := Some 7,
                  api_key_preview := ''...aw-key'', is_active := True\<rparr>))],
           active_keys := {''k1''}\<rparr>)
   \<and> update_models 7 disabled_keys ''k1'' [GEMINI_25_FLASH_LITE] =
       Inr (True, disabled_keys\<lparr>apikeys :=
          [(''k1'', Entry_json (disabled_entry
              \<lparr>available_models := [GEMINI_25_FLASH_LITE], last_validated := Some 7\<rparr>))]\<rparr>)"
proof -
  have h1: "map_of (apikeys disabled_keys) (example_hash ''k1-raw-key'') = Some (Entry_json disabled_entry)"
    by (simp add: disabled_keys_def example_hash_def)
  have h2: "map_of (apikeys disabled_keys) ''k1'' = Some (Entry_json disabled_entry)"
    by (simp add: disabled_keys_def)
  have added: "add_api_key example_hash 7 ''e2'' disabled_keys ''k1-raw-key''
         ''b@example.org'' [GEMINI_25_FLASH, GEMINI_25_FLASH_LITE] [] [] =
       (''k1'', disabled_keys
          \<lparr>apikeys :=
             [(''k1'', Entry_json (disabled_entry
                 \<lparr>available_models := [GEMINI_25_PRO, GEMINI_25_FLASH, GEMINI_25_FLASH_LITE],
                  email := ''b@example.org'', last_validated := Some 7,
                  api_key_preview := ''...aw-key'', is_active := True\<rparr>))],
           active_keys := {''k1''}\<rparr>)"
    by (simp add: add_api_key_def Let_def disabled_keys_def disabled_entry_def example_entry_def
          example_hash_def preview_of_def model_ids)
  have replaced: "update_models 7 disabled_keys ''k1'' [GEMINI_25_FLASH_LITE] =
       Inr (True, disabled_keys\<lparr>apikeys :=
          [(''k1'', Entry_json (disabled_entry
              \<lparr>available_models := [GEMINI_25_FLASH_LITE], last_validated := Some 7\<rparr>))]\<rparr>)"
    by (simp add: update_models_def Let_def disabled_keys_def disabled_entry_def example_entry_def
          model_ids)
  note inst = c9_merge_vs_replace [where hash_key = example_hash and api_key = "''k1-raw-key''"
               and s = disabled_keys and key_hash = "''k1''", OF h1 h2]
  from h1 h2 added replaced inst show ?thesis by simp
qed

section \<open>Properties of the router\<close>

lemma sort_reverse_head:
  assumes "sort_reverse xs = x # rest"
  shows "x \<in> set xs \<and> (\<forall>y \<in> set xs. y \<le> x)"
proof -
  from assms have "rev (sort xs) = x # rest" by (simp add: sort_reverse_def)
  then have "rev (rev (sort xs)) = rev (x # rest)" by simp
  then have s: "sort xs = rev rest @ [x]" by simp
  have "sorted (sort xs)" by simp
  with s have "sorted (rev rest @ [x])" by simp
  then have le: "\<forall>y \<in> set (rev rest). y \<le> x" by (simp add: sorted_append)
  have "set xs = set (sort xs)" by simp
  with s have "set xs = set (rev rest @ [x])" by simp
  with le show ?thesis by auto
qed

lemma score_eligible_keys:
  "(sc, kh) \<in> set (score_eligible cfg r now today model est keys) \<Longrightarrow> kh \<in> fst ` set keys"
  by (induction keys) (auto split: if_splits)

lemma eligible_keys_not_excluded:
  "kh \<in> fst ` set (eligible_keys active model exclude) \<Longrightarrow> (kh, model) \<notin> exclude"
  by (auto simp: eligible_keys_def)

lemma try_models_Inr:
  assumes "try_models cfg r now today est req exclude blocked active models = Inr (kh, model, em, pv)"
  shows "model \<in> set models \<and> model \<notin> blocked
       \<and> (\<exists>best others entry.
             sort_reverse (score_eligible cfg r now today model est (eligible_keys active model exclude))
               = (best, kh) # others
           \<and> map_of (eligible_keys active model exclude) kh = Some entry
           \<and> em = email entry \<and> pv = api_key_preview entry)"
  using assms
proof (induction models)
  case Nil
  then show ?case by simp
next
  case (Cons m ms)
  then show ?case
    by (auto simp: Let_def split: if_splits list.splits option.splits)
qed

lemma select_Inr:
  assumes "select_best_key_and_model cfg s r now today pref est req exclude blocked
             = Inr (kh, model, em, pv)"
  shows "\<exists>active. get_active_keys s = Inr active \<and> active \<noteq> []
           \<and> try_models cfg r now today est req exclude blocked active (build_model_order pref req)
               = Inr (kh, model, em, pv)"
  using assms
  by (auto simp: select_best_key_and_model_def Let_def split: sum.splits if_splits)

text \<open>
  Claim C3, as the code has it. The router returns, among the candidates that passed the
  rate check for the chosen model, the one with the greatest tuple \<open>(score, handle)\<close>:
  no candidate has a higher score, and among the candidates with that same score the
  returned handle is the last in lexicographic order, not the first. The set of scored
  candidates fixes the result, whatever the order in which the keys were read.
\<close>

theorem c3_tie_break_greatest_handle:
  assumes "select_best_key_and_model cfg s r now today pref est req exclude blocked
             = Inr (kh, model, em, pv)"
  shows "\<exists>active sc. get_active_keys s = Inr active
           \<and> (sc, kh) \<in> set (score_eligible cfg r now today model est
                                (eligible_keys active model exclude))
           \<and> (\<forall>(sc', kh') \<in> set (score_eligible cfg r now today model est
                                     (eligible_keys active model exclude)).
                 sc' \<le> sc \<and> (sc' = sc \<longrightarrow> kh' \<le> kh))"
proof -
  from select_Inr [OF assms] obtain active where
    a: "get_active_keys s = Inr active" and
    t: "try_models cfg r now today est req exclude blocked active (build_model_order pref req)
          = Inr (kh, model, em, pv)"
    by blast
  let ?scored = "score_eligible cfg r now today model est (eligible_keys active model exclude)"
  from try_models_Inr [OF t] obtain best others where
    h: "sort_reverse ?scored = (best, kh) # others"
    by blast
  from sort_reverse_head [OF h] have
    mem: "(best, kh) \<in> set ?scored" and
    top: "\<forall>y \<in> set ?scored. y \<le> (best, kh)"
    by blast+
  have "\<forall>(sc', kh') \<in> set ?scored. sc' \<le> best \<and> (sc' = best \<longrightarrow> kh' \<le> kh)"
  proof (clarify)
    fix sc' kh'
    assume "(sc', kh') \<in> set ?scored"
    with top have "(sc', kh') \<le> (best, kh)" by blast
    then show "sc' \<le> best \<and> (sc' = best \<longrightarrow> kh' \<le> kh)" by auto
  qed
  with a mem show ?thesis by blast
qed

lemma two_keys_active:
  "get_active_keys two_keys = Inr [(''0a1f'', entry_a), (''f3c2'', entry_b)]"
  by (simp add: get_active_keys_def get_all_keys_def two_keys_def entry_a_def entry_b_def
        example_entry_def)

lemma no_usage_check: "check_rate_limit [] now today kh GEMINI_25_FLASH 100 = (True, None)"
  by (simp add: check_rate_limit_def flash_limits hgetall_def empty_hash_def Let_def
        stored_last_reset_def stored_rpd_count_def)

lemma binade_numeral:
  "binade (numeral k) x =
     (if x \<ge> 2 then binade (pred_numeral k) (x / 2) + 1
      else if x < 1 then binade (pred_numeral k) (x * 2) - 1
      else 0)"
  by (simp add: numeral_eq_Suc)

lemmas float_eval =
  round_double_def round_half_even_def pow2_def binade_numeral Let_def
  float_of_int_def float_add_def float_sub_def float_mul_def float_truediv_def int_truediv_def

lemma default_weights:
  "health_weight default_router = 3602879701896397 / 9007199254740992"
  "capacity_weight default_router = 5404319552844595 / 9007199254740992"
  by (simp_all add: default_router_def float_eval)

lemma fresh_score:
  "score default_router 100
     \<lparr>rpm_used = 0, u_rpm_limit = a, rpd_used = 0, u_rpd_limit = b, tpm_used = 0, u_tpm_limit = c\<rparr>
   = 100"
  by (simp add: score_def default_weights float_eval)

text \<open>
  Rounding decides between scores that exact arithmetic would make equal: with health
  90 and 3 of 1500 daily requests used, and with health 91 and 33 of them used, the
  exact value is 95.96 both times, but the first float is the next double above the
  second.
\<close>

lemma score_rounding:
  "score default_router 90
     \<lparr>rpm_used = 0, u_rpm_limit = 15, rpd_used = 3, u_rpd_limit = 1500,
      tpm_used = 0, u_tpm_limit = 1000000\<rparr>
   = 3376292345644319 / 35184372088832"
  "score default_router 91
     \<lparr>rpm_used = 0, u_rpm_limit = 15, rpd_used = 33, u_rpd_limit = 1500,
      tpm_used = 0, u_tpm_limit = 1000000\<rparr>
   = 6752584691288637 / 70368744177664"
  by (simp_all add: score_def default_weights float_eval)

lemma no_usage_stats:
  "get_usage_stats [] now today kh GEMINI_25_FLASH
   = \<lparr>rpm_used = 0, u_rpm_limit = 15, rpd_used = 0, u_rpd_limit = 1500,
      tpm_used = 0, u_tpm_limit = 1000000\<rparr>"
  by (simp add: get_usage_stats_def flash_limits hgetall_def empty_hash_def Let_def
        stored_last_reset_def stored_rpd_count_def)

lemma no_usage_score:
  "score default_router 100 (get_usage_stats [] now today kh GEMINI_25_FLASH) = 100"
  by (simp add: no_usage_stats fresh_score)

lemma flash_nonempty: "GEMINI_25_FLASH \<noteq> []"
  by (simp add: GEMINI_25_FLASH_def)

lemma two_keys_eligible:
  "eligible_keys [(''0a1f'', entry_a), (''f3c2'', entry_b)] GEMINI_25_FLASH {}
     = [(''0a1f'', entry_a), (''f3c2'', entry_b)]"
  by (simp add: eligible_keys_def entry_a_def entry_b_def)

lemma two_keys_scored:
  "score_eligible default_router [] 1000 ''2026-02-02'' GEMINI_25_FLASH 100
     [(''0a1f'', entry_a), (''f3c2'', entry_b)]
   = [(100, ''0a1f''), (100, ''f3c2'')]"
  by (simp add: entry_a_def entry_b_def no_usage_check no_usage_score)

lemma two_keys_sorted:
  "sort_reverse [(100 :: real, ''0a1f''), (100, ''f3c2'')] = [(100, ''f3c2''), (100, ''0a1f'')]"
  by (simp add: sort_reverse_def)

lemma entry_b_fields:
  "email entry_b = ''b@example.org''" "api_key_preview entry_b = ''...bbbbbb''"
  by (simp_all add: entry_b_def)

lemma two_keys_selected:
  "select_best_key_and_model default_router two_keys [] 1000 ''2026-02-02''
     (Some GEMINI_25_FLASH) 100 None {} {}
   = Inr (''f3c2'', GEMINI_25_FLASH, ''b@example.org'', ''...bbbbbb'')"
  by (simp add: select_best_key_and_model_def two_keys_active build_model_order_def
        truthy_set_def flash_limits flash_nonempty two_keys_eligible two_keys_scored
        two_keys_sorted Let_def entry_b_fields del: score_eligible.simps)

text \<open>
  On \<open>uneven_keys\<close> the two floats differ, so there is no tie and the router returns the
  key with the greater float, \<open>0a1f\<close>.
\<close>

lemma uneven_hgetall:
  "hgetall uneven_rates (rkey ''0a1f'' GEMINI_25_FLASH) = used_today 3"
  "hgetall uneven_rates (rkey ''f3c2'' GEMINI_25_FLASH) = used_today 33"
  by (simp_all add: hgetall_def uneven_rates_def rkey_def)

lemma uneven_check:
  "check_rate_limit uneven_rates 1000 ''2026-02-02'' ''0a1f'' GEMINI_25_FLASH 100 = (True, None)"
  "check_rate_limit uneven_rates 1000 ''2026-02-02'' ''f3c2'' GEMINI_25_FLASH 100 = (True, None)"
  by (simp_all add: check_rate_limit_def flash_limits uneven_hgetall used_today_def Let_def
        stored_last_reset_def stored_rpd_count_def)

lemma uneven_usage:
  "get_usage_stats uneven_rates 1000 ''2026-02-02'' ''0a1f'' GEMINI_25_FLASH
   = \<lparr>rpm_used = 0, u_rpm_limit = 15, rpd_used = 3, u_rpd_limit = 1500,
      tpm_used = 0, u_tpm_limit = 1000000\<rparr>"
  "get_usage_stats uneven_rates 1000 ''2026-02-02'' ''f3c2'' GEMINI_25_FLASH
   = \<lparr>rpm_used = 0, u_rpm_limit = 15, rpd_used = 33, u_rpd_limit = 1500,
      tpm_used = 0, u_tpm_limit = 1000000\<rparr>"
  by (simp_all add: get_usage_stats_def flash_limits uneven_hgetall used_today_def Let_def
        stored_last_reset_def stored_rpd_count_def)

lemma uneven_active:
  "get_active_keys uneven_keys
   = Inr [(''0a1f'', entry_a\<lparr>health_score := 90\<rparr>), (''f3c2'', entry_b\<lparr>health_score := 91\<rparr>)]"
  by (simp add: get_active_keys_def get_all_keys_def uneven_keys_def entry_a_def entry_b_def
        example_entry_def)

lemma uneven_scored:
  "score_eligible default_router uneven_rates 1000 ''2026-02-02'' GEMINI_25_FLASH 100
     (eligible_keys [(''0a1f'', entry_a\<lparr>health_score := 90\<rparr>), (''f3c2'', entry_b\<lparr>health_score := 91\<rparr>)]
        GEMINI_25_FLASH {})
   = [(3376292345644319 / 35184372088832, ''0a1f''), (6752584691288637 / 70368744177664, ''f3c2'')]"
  by (simp add: eligible_keys_def entry_a_def entry_b_def uneven_check uneven_usage score_rounding)

lemma uneven_sorted:
  "sort_reverse [(3376292345644319 / 35184372088832 :: real, ''0a1f''),
                 (6752584691288637 / 70368744177664, ''f3c2'')]
   = [(3376292345644319 / 35184372088832, ''0a1f''), (6752584691288637 / 70368744177664, ''f3c2'')]"
  by (simp add: sort_reverse_def)

lemma uneven_selected:
  "select_best_key_and_model default_router uneven_keys uneven_rates 1000 ''2026-02-02''
     (Some GEMINI_25_FLASH) 100 None {} {}
   = Inr (''0a1f'', GEMINI_25_FLASH, ''a@example.org'', ''...aaaaaa'')"
proof -
  have el: "eligible_keys [(''0a1f'', entry_a\<lparr>health_score := 90\<rparr>), (''f3c2'', entry_b\<lparr>health_score := 91\<rparr>)]
        GEMINI_25_FLASH {} \<noteq> []"
    by (simp add: eligible_keys_def entry_a_def entry_b_def)
  have look: "map_of (eligible_keys [(''0a1f'', entry_a\<lparr>health_score := 90\<rparr>),
        (''f3c2'', entry_b\<lparr>health_score := 91\<rparr>)] GEMINI_25_FLASH {}) ''0a1f''
      = Some (entry_a\<lparr>health_score := 90\<rparr>)"
    by (simp add: eligible_keys_def entry_a_def entry_b_def)
  have fields: "email (entry_a\<lparr>health_score := 90\<rparr>) = ''a@example.org''"
    "api_key_preview (entry_a\<lparr>health_score := 90\<rparr>) = ''...aaaaaa''"
    by (simp_all add: entry_a_def)
  show ?thesis
    by (simp add: select_best_key_and_model_def uneven_active build_model_order_def
          truthy_set_def flash_limits flash_nonempty el uneven_scored uneven_sorted look fields
          Let_def del: score_eligible.simps)
qed

text \<open>
  Claim C3, as the specification states it, fails on the code: the keys \<open>0a1f\<close> and
  \<open>f3c2\<close> have the same health and the same (empty) usage, so both score 100, and the
  router returns \<open>f3c2\<close>, which is not the first of the two handles.
\<close>

theorem c3_first_handle_counterexample:
  "score_eligible default_router [] 1000 ''2026-02-02'' GEMINI_25_FLASH 100
     (eligible_keys [(''0a1f'', entry_a), (''f3c2'', entry_b)] GEMINI_25_FLASH {})
     = [(100, ''0a1f''), (100, ''f3c2'')]
   \<and> ''0a1f'' < ''f3c2''
   \<and> get_active_keys two_keys = Inr [(''0a1f'', entry_a), (''f3c2'', entry_b)]
   \<and> select_best_key_and_model default_router two_keys [] 1000 ''2026-02-02''
         (Some GEMINI_25_FLASH) 100 None {} {}
       = Inr (''f3c2'', GEMINI_25_FLASH, ''b@example.org'', ''...bbbbbb'')"
  by (simp add: two_keys_eligible two_keys_scored two_keys_active two_keys_selected
        del: score_eligible.simps)

theorem c3_tie_break_greatest_handle_witness:
  "select_best_key_and_model default_router two_keys [] 1000 ''2026-02-02''
     (Some GEMINI_25_FLASH) 100 None {} {}
     = Inr (''f3c2'', GEMINI_25_FLASH, ''b@example.org'', ''...bbbbbb'')
   \<and> (100, ''f3c2'') \<in> set (score_eligible default_router [] 1000 ''2026-02-02''
          GEMINI_25_FLASH 100
          (eligible_keys [(''0a1f'', entry_a), (''f3c2'', entry_b)] GEMINI_25_FLASH {}))
   \<and> ''0a1f'' \<le> ''f3c2''"
  using c3_tie_break_greatest_handle [OF two_keys_selected]
  by (simp add: two_keys_selected two_keys_eligible two_keys_scored del: score_eligible.simps)

section \<open>Properties of the fallback loop\<close>

lemma select_result:
  assumes "select_best_key_and_model cfg s r now today pref est req exclude blocked
             = Inr (kh, model, em, pv)"
  shows "model \<notin> blocked \<and> (kh, model) \<notin> exclude"
proof -
  from select_Inr [OF assms] obtain active where
    t: "try_models cfg r now today est req exclude blocked active (build_model_order pref req)
          = Inr (kh, model, em, pv)"
    by blast
  from try_models_Inr [OF t] obtain best others where
    nb: "model \<notin> blocked" and
    h: "sort_reverse (score_eligible cfg r now today model est (eligible_keys active model exclude))
          = (best, kh) # others"
    by blast
  from sort_reverse_head [OF h] have
    "(best, kh) \<in> set (score_eligible cfg r now today model est (eligible_keys active model exclude))"
    by blast
  then have "kh \<in> fst ` set (eligible_keys active model exclude)"
    by (rule score_eligible_keys)
  then have "(kh, model) \<notin> exclude"
    by (rule eligible_keys_not_excluded)
  with nb show ?thesis by blast
qed

lemma after_selection_step:
  "(case after_selection ctx n st kh m of
      Continue st' \<Rightarrow>
        logged st (last (history st')) st'
        \<and> pair_of (last (history st')) = (kh, m) \<and> (kh, m) \<in> failed_pairs st'
    | Stop res st' \<Rightarrow>
        logged st (last (history st')) st'
        \<and> pair_of (last (history st')) = (kh, m)
        \<and> ((\<exists>t. res = Served m t (n - 1)
                \<and> a_result (last (history st')) = Upstream (Success t))
           \<or> ((\<exists>err. res = Raised err) \<and> (kh, m) \<in> failed_pairs st')))"
proof -
  let ?key = "case plainkeys (key_db st) kh of None \<Rightarrow> [] | Some k \<Rightarrow> k"
  note defs = after_selection_def log_attempt_def logged_def pair_of_def is_429_def
    failed_count_def Let_def subset_insertI
  show ?thesis
  proof (cases "?key = []")
    case True
    then show ?thesis by (simp add: defs)
  next
    case nonempty: False
    show ?thesis
    proof (cases "upstream ctx n ?key m")
      case (Success t)
      show ?thesis
      proof (cases "update_health (key_db st) kh True")
        case (Inl err)
        with nonempty Success show ?thesis by (simp add: defs)
      next
        case (Inr keys')
        with nonempty Success show ?thesis by (simp add: defs)
      qed
    next
      case (Api_error code)
      show ?thesis
      proof (cases "code = 429")
        case True
        show ?thesis
        proof (cases "failed_models st m")
          case None
          with nonempty Api_error True show ?thesis by (simp add: defs)
        next
          case (Some c)
          with nonempty Api_error True show ?thesis by (simp add: defs)
        qed
      next
        case other: False
        show ?thesis
        proof (cases "update_health (key_db st) kh False")
          case (Inl err)
          with nonempty Api_error other show ?thesis by (simp add: defs)
        next
          case (Inr keys')
          with nonempty Api_error other show ?thesis by (simp add: defs)
        qed
      qed
    next
      case Other_exception
      with nonempty show ?thesis by (simp add: defs)
    qed
  qed
qed

lemma after_selection_Continue:
  assumes "after_selection ctx n st kh m = Continue st'"
  shows "logged st (last (history st')) st' \<and> pair_of (last (history st')) = (kh, m)
           \<and> (kh, m) \<in> failed_pairs st'"
  using after_selection_step [where ctx = ctx and n = n and st = st and kh = kh and m = m] assms
  by simp

lemma after_selection_Stop:
  assumes "after_selection ctx n st kh m = Stop res st'"
  shows "logged st (last (history st')) st' \<and> pair_of (last (history st')) = (kh, m)
           \<and> ((\<exists>t. res = Served m t (n - 1)
                   \<and> a_result (last (history st')) = Upstream (Success t))
              \<or> ((\<exists>err. res = Raised err) \<and> (kh, m) \<in> failed_pairs st'))"
  using after_selection_step [where ctx = ctx and n = n and st = st and kh = kh and m = m] assms
  by simp

lemma attempt_body_Continue:
  assumes "attempt_body ctx n st = Continue st'"
  shows "\<exists>a. logged st a st' \<and> a_model a \<notin> blocked_models st
           \<and> pair_of a \<notin> failed_pairs st \<and> pair_of a \<in> failed_pairs st'"
proof -
  from assms obtain kh m em pv where
    sel: "select_best_key_and_model (router ctx) (key_db st) (rate_db st)
            (fst (clock ctx n)) (snd (clock ctx n)) (preferred_model ctx) (estimated_tokens ctx)
            (if truthy_set (required_caps ctx) then required_caps ctx else None)
            (failed_pairs st) (blocked_models st) = Inr (kh, m, em, pv)" and
    aft: "after_selection ctx n st kh m = Continue st'"
    by (auto simp: attempt_body_def split: sum.splits py_error.splits)
  from select_result [OF sel] have nb: "m \<notin> blocked_models st" and ne: "(kh, m) \<notin> failed_pairs st"
    by blast+
  from after_selection_Continue [OF aft] have
    "logged st (last (history st')) st'" "pair_of (last (history st')) = (kh, m)"
    "(kh, m) \<in> failed_pairs st'"
    by blast+
  with nb ne show ?thesis
    by (auto simp: pair_of_def)
qed

lemma attempt_body_Stop:
  assumes "attempt_body ctx n st = Stop res st'"
  shows "(st' = st \<and> (res = Http_429 n (blocked_models st) (last_error st) \<or> (\<exists>err. res = Raised err)))
       \<or> (\<exists>a. logged st a st' \<and> a_model a \<notin> blocked_models st \<and> pair_of a \<notin> failed_pairs st
              \<and> ((\<exists>m t. res = Served m t (n - 1) \<and> a_result a = Upstream (Success t))
                 \<or> ((\<exists>err. res = Raised err) \<and> pair_of a \<in> failed_pairs st')))"
proof (cases "select_best_key_and_model (router ctx) (key_db st) (rate_db st)
            (fst (clock ctx n)) (snd (clock ctx n)) (preferred_model ctx) (estimated_tokens ctx)
            (if truthy_set (required_caps ctx) then required_caps ctx else None)
            (failed_pairs st) (blocked_models st)")
  case (Inl err)
  with assms show ?thesis
    by (auto simp: attempt_body_def split: py_error.splits)
next
  case (Inr sel)
  obtain kh m em pv where sel: "sel = (kh, m, em, pv)"
    by (cases sel) auto
  from Inr sel assms have aft: "after_selection ctx n st kh m = Stop res st'"
    by (simp add: attempt_body_def)
  from select_result [OF Inr [unfolded sel]] have
    nb: "m \<notin> blocked_models st" and ne: "(kh, m) \<notin> failed_pairs st"
    by blast+
  from after_selection_Stop [OF aft] have
    "logged st (last (history st')) st'" "pair_of (last (history st')) = (kh, m)"
    "(\<exists>t. res = Served m t (n - 1) \<and> a_result (last (history st')) = Upstream (Success t))
       \<or> ((\<exists>err. res = Raised err) \<and> (kh, m) \<in> failed_pairs st')"
    by blast+
  with nb ne show ?thesis
    by (auto simp: pair_of_def)
qed

lemma count_429_snoc:
  "count_429 m (h @ [a]) = count_429 m h + (if a_model a = m \<and> is_429 a then 1 else 0)"
  by (simp add: count_429_def)

lemma run_inv_step:
  assumes inv: "run_inv st" and ex: "all_excluded st" and lg: "logged st a st'"
      and nb: "a_model a \<notin> blocked_models st" and ne: "pair_of a \<notin> failed_pairs st"
  shows "run_inv st'"
proof -
  let ?h = "history st"
  from lg have h': "history st' = ?h @ [a]"
    by (simp add: logged_def)
  from inv have d: "distinct (map pair_of ?h)"
    and c: "\<And>m. count_429 m ?h = failed_count st m"
    and b: "\<And>m. 2 \<le> count_429 m ?h \<Longrightarrow> m \<in> blocked_models st"
    and o: "\<And>k m. k < length ?h \<Longrightarrow> 2 \<le> count_429 m (take k ?h) \<Longrightarrow> a_model (?h ! k) \<noteq> m"
    and q: "\<And>x. x \<in> set ?h \<Longrightarrow> is_429 x \<Longrightarrow>
              a_health_call x = None \<and> a_keys_after x = a_keys_before x"
    and u: "\<And>x. x \<in> set ?h \<Longrightarrow> a_result x = Upstream Other_exception \<Longrightarrow>
              a_health_call x = None \<and> a_keys_after x = a_keys_before x"
    by (simp_all add: run_inv_def)
  from ex ne have "pair_of a \<notin> pair_of ` set ?h"
    by (auto simp: all_excluded_def)
  with d have d': "distinct (map pair_of (history st'))"
    by (simp add: h')
  have c': "count_429 m (history st') = failed_count st' m" for m
  proof (cases "is_429 a")
    case True
    with lg have "failed_models st' = (failed_models st)(a_model a \<mapsto> failed_count st (a_model a) + 1)"
      by (simp add: logged_def)
    then have "failed_count st' m = (if m = a_model a then failed_count st m + 1 else failed_count st m)"
      by (simp add: failed_count_def)
    with True c [of m] show ?thesis
      by (auto simp: h' count_429_snoc)
  next
    case False
    with lg have "failed_models st' = failed_models st"
      by (simp add: logged_def)
    then have "failed_count st' m = failed_count st m"
      by (simp add: failed_count_def)
    with False c [of m] show ?thesis
      by (simp add: h' count_429_snoc)
  qed
  have mono: "blocked_models st \<subseteq> blocked_models st'"
    using lg by (auto simp: logged_def split: if_splits)
  have b': "m \<in> blocked_models st'" if two: "2 \<le> count_429 m (history st')" for m
  proof (cases "is_429 a \<and> a_model a = m")
    case True
    with two c [of m] have "2 \<le> failed_count st (a_model a) + 1"
      by (simp add: h' count_429_snoc)
    with True lg show ?thesis
      by (simp add: logged_def)
  next
    case False
    with two have "2 \<le> count_429 m ?h"
      by (auto simp: h' count_429_snoc split: if_splits)
    then have "m \<in> blocked_models st" by (rule b)
    with mono show ?thesis by blast
  qed
  have o': "a_model (history st' ! k) \<noteq> m"
    if k: "k < length (history st')" and two: "2 \<le> count_429 m (take k (history st'))" for k m
  proof (cases "k < length ?h")
    case True
    with two have "2 \<le> count_429 m (take k ?h)" by (simp add: h')
    with True have "a_model (?h ! k) \<noteq> m" by (rule o)
    with True show ?thesis by (simp add: h' nth_append)
  next
    case False
    with k have keq: "k = length ?h" by (simp add: h')
    with two have "2 \<le> count_429 m ?h" by (simp add: h')
    then have "m \<in> blocked_models st" by (rule b)
    with nb have "a_model a \<noteq> m" by blast
    with keq show ?thesis by (simp add: h')
  qed
  have qa: "a_health_call a = None \<and> a_keys_after a = a_keys_before a" if "is_429 a"
    using lg that by (simp add: logged_def)
  have ua: "a_health_call a = None \<and> a_keys_after a = a_keys_before a"
    if "a_result a = Upstream Other_exception"
    using lg that by (simp add: logged_def)
  have q': "a_health_call x = None \<and> a_keys_after x = a_keys_before x"
    if "x \<in> set (history st')" "is_429 x" for x
    using that q qa by (auto simp: h')
  have u': "a_health_call x = None \<and> a_keys_after x = a_keys_before x"
    if "x \<in> set (history st')" "a_result x = Upstream Other_exception" for x
    using that u ua by (auto simp: h')
  from d' c' b' o' q' u' show ?thesis
    unfolding run_inv_def by blast
qed

lemma all_excluded_step:
  assumes "all_excluded st" and "logged st a st'" and "pair_of a \<in> failed_pairs st'"
  shows "all_excluded st'"
  using assms by (auto simp: all_excluded_def logged_def)

lemma run_inv_initial: "run_inv (initial_state ks rs)" "all_excluded (initial_state ks rs)"
  by (simp_all add: run_inv_def all_excluded_def initial_state_def count_429_def failed_count_def)

lemma fallback_loop_final:
  assumes "fallback_loop ctx n st = (res, iters, st')"
      and "run_inv st" and "all_excluded st"
      and "length (history st) \<le> n" and "n \<le> max_attempts"
  shows "run_inv st' \<and> iters \<le> max_attempts \<and> length (history st') \<le> iters
       \<and> failed_pairs st \<subseteq> failed_pairs st'
       \<and> ((\<exists>m t. res = Served m t (iters - 1) \<and> history st' \<noteq> []
              \<and> a_result (last (history st')) = Upstream (Success t)
              \<and> pair_of ` set (butlast (history st')) \<subseteq> failed_pairs st')
          \<or> (((\<exists>bm le. res = Http_429 iters bm le) \<or> (\<exists>err. res = Raised err))
              \<and> all_excluded st'))"
  using assms
proof (induction ctx n st rule: fallback_loop.induct)
  case (1 ctx n st)
  note inv = \<open>run_inv st\<close> and ex = \<open>all_excluded st\<close>
    and len = \<open>length (history st) \<le> n\<close> and le = \<open>n \<le> max_attempts\<close>
  from "1.prems"(1) have run:
    "(if n < max_attempts
      then (case attempt_body ctx (n + 1) st of
              Continue st1 \<Rightarrow> fallback_loop ctx (n + 1) st1
            | Stop r st1 \<Rightarrow> (r, n + 1, st1))
      else (Http_429 n (blocked_models st) (last_error st), n, st)) = (res, iters, st')"
    by (subst (asm) fallback_loop.simps) simp
  show ?case
  proof (cases "n < max_attempts")
    case False
    with run have "res = Http_429 n (blocked_models st) (last_error st)" and "st' = st"
      and "iters = n"
      by auto
    with inv ex len le show ?thesis by simp
  next
    case less: True
    show ?thesis
    proof (cases "attempt_body ctx (n + 1) st")
      case (Continue st1)
      with run less have rec: "fallback_loop ctx (n + 1) st1 = (res, iters, st')"
        by simp
      from attempt_body_Continue [OF Continue] obtain a where
        lg: "logged st a st1" and nb: "a_model a \<notin> blocked_models st"
        and ne: "pair_of a \<notin> failed_pairs st" and inn: "pair_of a \<in> failed_pairs st1"
        by blast
      have inv1: "run_inv st1" using inv ex lg nb ne by (rule run_inv_step)
      have ex1: "all_excluded st1" using ex lg inn by (rule all_excluded_step)
      from lg len have len1: "length (history st1) \<le> n + 1"
        by (simp add: logged_def)
      from less have le1: "n + 1 \<le> max_attempts" by simp
      from lg have sub: "failed_pairs st \<subseteq> failed_pairs st1"
        by (simp add: logged_def)
      from "1.IH" [OF less Continue rec inv1 ex1 len1 le1] sub
      show ?thesis by blast
    next
      case (Stop r st1)
      with run less have eq: "res = r" "st' = st1" "iters = n + 1"
        by auto
      from attempt_body_Stop [OF Stop] consider
        (same) "st1 = st"
          "r = Http_429 (n + 1) (blocked_models st) (last_error st) \<or> (\<exists>err. r = Raised err)"
        | (logged) a where "logged st a st1" "a_model a \<notin> blocked_models st"
            "pair_of a \<notin> failed_pairs st"
            "(\<exists>m t. r = Served m t (n + 1 - 1) \<and> a_result a = Upstream (Success t))
               \<or> ((\<exists>err. r = Raised err) \<and> pair_of a \<in> failed_pairs st1)"
        by blast
      then show ?thesis
      proof cases
        case same
        with eq inv ex len le less show ?thesis by auto
      next
        case logged
        have inv1: "run_inv st1"
          using inv ex logged(1) logged(2) logged(3) by (rule run_inv_step)
        from logged(1) have h1: "history st1 = history st @ [a]"
          and sub: "failed_pairs st \<subseteq> failed_pairs st1"
          by (simp_all add: logged_def)
        from h1 len have len1: "length (history st1) \<le> n + 1" by simp
        from less have le1: "n + 1 \<le> max_attempts" by simp
        from logged(4) show ?thesis
        proof
          assume "\<exists>m t. r = Served m t (n + 1 - 1) \<and> a_result a = Upstream (Success t)"
          then obtain m t where r: "r = Served m t n" and ok: "a_result a = Upstream (Success t)"
            by auto
          from ex sub have "pair_of ` set (butlast (history st1)) \<subseteq> failed_pairs st1"
            by (auto simp: h1 all_excluded_def)
          with r ok eq inv1 len1 le1 sub show ?thesis by (simp add: h1)
        next
          assume "(\<exists>err. r = Raised err) \<and> pair_of a \<in> failed_pairs st1"
          then obtain err where r: "r = Raised err" and inn: "pair_of a \<in> failed_pairs st1"
            by blast
          have "all_excluded st1" using ex logged(1) inn by (rule all_excluded_step)
          with r eq inv1 len1 le1 sub show ?thesis by simp
        qed
      qed
    qed
  qed
qed

lemma generate_with_fallback_final:
  assumes "generate_with_fallback ctx ks rs = (res, iters, st)"
  shows "run_inv st \<and> iters \<le> max_attempts \<and> length (history st) \<le> iters
       \<and> ((\<exists>m t. res = Served m t (iters - 1) \<and> history st \<noteq> []
              \<and> a_result (last (history st)) = Upstream (Success t)
              \<and> pair_of ` set (butlast (history st)) \<subseteq> failed_pairs st)
          \<or> (((\<exists>bm le. res = Http_429 iters bm le) \<or> (\<exists>err. res = Raised err))
              \<and> all_excluded st))"
proof -
  from assms have "fallback_loop ctx 0 (initial_state ks rs) = (res, iters, st)"
    by (simp add: generate_with_fallback_def)
  from fallback_loop_final [OF this run_inv_initial]
  show ?thesis by (simp add: initial_state_def)
qed

subsection \<open>Three runs evaluated\<close>

text \<open>
  The routers' answers, the steps of the loop and the results of the three example runs,
  each obtained by evaluating the definitions.
\<close>

lemma models_distinct:
  "GEMINI_25_PRO \<noteq> GEMINI_25_FLASH" "GEMINI_25_PRO \<noteq> GEMINI_25_FLASH_LITE"
  "GEMINI_3_FLASH \<noteq> GEMINI_25_FLASH" "GEMINI_3_FLASH \<noteq> GEMINI_25_FLASH_LITE"
  "GEMINI_25_FLASH \<noteq> GEMINI_25_FLASH_LITE" "GEMINI_25_FLASH_LITE \<noteq> GEMINI_25_FLASH"
  by (simp_all add: model_ids)

lemma lite_limits:
  "MODEL_RATE_LIMITS GEMINI_25_FLASH_LITE = Some \<lparr>rpm = 15, rpd = 1000, tpm = 250000\<rparr>"
  by (simp add: MODEL_RATE_LIMITS_def model_ids)

lemma no_usage_check_lite:
  "check_rate_limit [] now today kh GEMINI_25_FLASH_LITE 100 = (True, None)"
  by (simp add: check_rate_limit_def lite_limits hgetall_def empty_hash_def Let_def
        stored_last_reset_def stored_rpd_count_def)

lemma no_usage_stats_lite:
  "get_usage_stats [] now today kh GEMINI_25_FLASH_LITE
   = \<lparr>rpm_used = 0, u_rpm_limit = 15, rpd_used = 0, u_rpd_limit = 1000,
      tpm_used = 0, u_tpm_limit = 250000\<rparr>"
  by (simp add: get_usage_stats_def lite_limits hgetall_def empty_hash_def Let_def
        stored_last_reset_def stored_rpd_count_def)

lemma no_usage_score_lite:
  "score default_router 100 (get_usage_stats [] now today kh GEMINI_25_FLASH_LITE) = 100"
  by (simp add: no_usage_stats_lite fresh_score)

lemma wide_keys_active:
  "get_active_keys wide_keys = Inr [(''1b2e'', entry_c), (''e4d3'', entry_d)]"
  by (simp add: get_active_keys_def get_all_keys_def wide_keys_def entry_c_def entry_d_def
        example_entry_def)

lemma wide_entry_fields:
  "available_models entry_c = [GEMINI_25_FLASH, GEMINI_25_FLASH_LITE]"
  "available_models entry_d = [GEMINI_25_FLASH, GEMINI_25_FLASH_LITE]"
  "health_score entry_c = 100" "health_score entry_d = 100"
  "email entry_c = ''c@example.org''" "email entry_d = ''d@example.org''"
  "api_key_preview entry_c = ''...cccccc''" "api_key_preview entry_d = ''...dddddd''"
  by (simp_all add: entry_c_def entry_d_def)

lemma sorted_pair:
  "sort_reverse [(100 :: real, ''1b2e''), (100, ''e4d3'')] = [(100, ''e4d3''), (100, ''1b2e'')]"
  by (simp add: sort_reverse_def)

lemma sort_reverse_single: "sort_reverse [x] = [x]"
  by (simp add: sort_reverse_def)

lemmas select_eval =
  select_best_key_and_model_def build_model_order_def MODEL_PRIORITY_def truthy_set_def
  eligible_keys_def Let_def models_distinct flash_limits lite_limits
  no_usage_check no_usage_check_lite no_usage_score no_usage_score_lite

lemma mixed_select_1:
  "select_best_key_and_model default_router wide_keys [] 1000 ''2026-02-02''
     None 100 None {} {}
   = Inr (''e4d3'', GEMINI_25_FLASH, ''d@example.org'', ''...dddddd'')"
  by (simp add: select_eval wide_keys_active wide_entry_fields sorted_pair)

lemma mixed_select_2:
  "select_best_key_and_model default_router wide_keys [] 1000 ''2026-02-02''
     None 100 None {(''e4d3'', GEMINI_25_FLASH)} {}
   = Inr (''1b2e'', GEMINI_25_FLASH, ''c@example.org'', ''...cccccc'')"
  by (simp add: select_eval wide_keys_active wide_entry_fields sort_reverse_single)

lemma mixed_select_3:
  "select_best_key_and_model default_router wide_keys [] 1000 ''2026-02-02''
     None 100 None {(''1b2e'', GEMINI_25_FLASH), (''e4d3'', GEMINI_25_FLASH)} {GEMINI_25_FLASH}
   = Inr (''e4d3'', GEMINI_25_FLASH_LITE, ''d@example.org'', ''...dddddd'')"
  by (simp add: select_eval wide_keys_active wide_entry_fields sorted_pair)

lemma mixed_select_4:
  "select_best_key_and_model default_router wide_keys [] 1000 ''2026-02-02''
     None 100 None
     {(''e4d3'', GEMINI_25_FLASH_LITE), (''1b2e'', GEMINI_25_FLASH), (''e4d3'', GEMINI_25_FLASH)}
     {GEMINI_25_FLASH}
   = Inr (''1b2e'', GEMINI_25_FLASH_LITE, ''c@example.org'', ''...cccccc'')"
  by (simp add: select_eval wide_keys_active wide_entry_fields sort_reverse_single)

lemma mixed_select_5:
  "select_best_key_and_model default_router wide_keys [] 1000 ''2026-02-02''
     None 100 None
     {(''1b2e'', GEMINI_25_FLASH_LITE), (''e4d3'', GEMINI_25_FLASH_LITE),
      (''1b2e'', GEMINI_25_FLASH), (''e4d3'', GEMINI_25_FLASH)}
     {GEMINI_25_FLASH}
   = Inl AllKeysExhaustedError"
  by (simp add: select_eval wide_keys_active wide_entry_fields)

lemma mixed_ctx_fields:
  "router mixed_ctx = default_router" "preferred_model mixed_ctx = None"
  "estimated_tokens mixed_ctx = 100" "required_caps mixed_ctx = None"
  "clock mixed_ctx n = (1000, ''2026-02-02'')"
  "upstream mixed_ctx n k m = (if m = GEMINI_25_FLASH then Api_error 429 else Other_exception)"
  by (simp_all add: mixed_ctx_def example_clock_def)

lemma wide_plainkeys:
  "plainkeys wide_keys ''e4d3'' = Some ''raw-d''" "plainkeys wide_keys ''1b2e'' = Some ''raw-c''"
  by (simp_all add: wide_keys_def)

lemmas step_eval =
  attempt_body_def after_selection_def log_attempt_def truthy_set_def Let_def

lemma mixed_step_1:
  "attempt_body mixed_ctx 1 (initial_state wide_keys []) = Continue mixed_state_1"
  by (simp add: step_eval initial_state_def mixed_ctx_fields mixed_select_1 wide_plainkeys
        mixed_state_1_def mixed_attempt_1_def)

lemma mixed_step_2:
  "attempt_body mixed_ctx 2 mixed_state_1 = Continue mixed_state_2"
  by (simp add: step_eval mixed_ctx_fields mixed_select_2 wide_plainkeys
        mixed_state_1_def mixed_state_2_def mixed_attempt_2_def numeral_2_eq_2)

lemma mixed_step_3:
  "attempt_body mixed_ctx 3 mixed_state_2 = Continue mixed_state_3"
  by (simp add: step_eval mixed_ctx_fields mixed_select_3 wide_plainkeys models_distinct
        mixed_state_2_def mixed_state_3_def mixed_attempt_3_def)

lemma mixed_step_4:
  "attempt_body mixed_ctx 4 mixed_state_3 = Continue mixed_final"
  by (simp add: step_eval mixed_ctx_fields mixed_select_4 wide_plainkeys models_distinct
        mixed_state_3_def mixed_final_def mixed_attempt_4_def)

lemma mixed_step_5:
  "attempt_body mixed_ctx 5 mixed_final
     = Stop (Http_429 5 {GEMINI_25_FLASH} (Some Unexpected_exception)) mixed_final"
  by (simp add: step_eval mixed_ctx_fields mixed_select_5 mixed_final_def)

lemma mixed_run:
  "generate_with_fallback mixed_ctx wide_keys []
     = (Http_429 5 {GEMINI_25_FLASH} (Some Unexpected_exception), 5, mixed_final)"
  by (simp add: generate_with_fallback_def fallback_loop.simps max_attempts_def
        mixed_step_1 mixed_step_2 mixed_step_3 mixed_step_4 mixed_step_5 del: One_nat_def)

lemma two_entry_fields:
  "available_models entry_a = [GEMINI_25_FLASH]" "available_models entry_b = [GEMINI_25_FLASH]"
  "health_score entry_a = 100" "health_score entry_b = 100"
  "email entry_a = ''a@example.org''" "api_key_preview entry_a = ''...aaaaaa''"
  by (simp_all add: entry_a_def entry_b_def)

lemma flaky_select_2:
  "select_best_key_and_model default_router two_keys [] 1000 ''2026-02-02''
     (Some GEMINI_25_FLASH) 100 None {(''f3c2'', GEMINI_25_FLASH)} {}
   = Inr (''0a1f'', GEMINI_25_FLASH, ''a@example.org'', ''...aaaaaa'')"
  by (simp add: select_eval flash_nonempty two_keys_active two_entry_fields sort_reverse_single)

lemma flaky_select_3:
  "select_best_key_and_model default_router two_keys [] 1000 ''2026-02-02''
     (Some GEMINI_25_FLASH) 100 None
     {(''0a1f'', GEMINI_25_FLASH), (''f3c2'', GEMINI_25_FLASH)} {}
   = Inl AllKeysExhaustedError"
  by (simp add: select_eval flash_nonempty two_keys_active two_entry_fields)

lemma flaky_ctx_fields:
  "router flaky_ctx = default_router" "preferred_model flaky_ctx = Some GEMINI_25_FLASH"
  "estimated_tokens flaky_ctx = 100" "required_caps flaky_ctx = None"
  "clock flaky_ctx n = (1000, ''2026-02-02'')"
  "upstream flaky_ctx n k m = Other_exception"
  by (simp_all add: flaky_ctx_def example_clock_def)

lemma two_plainkeys:
  "plainkeys two_keys ''f3c2'' = Some ''raw-b''" "plainkeys two_keys ''0a1f'' = Some ''raw-a''"
  by (simp_all add: two_keys_def)

lemma flaky_step_1:
  "attempt_body flaky_ctx 1 (initial_state two_keys []) = Continue flaky_state_1"
  by (simp add: step_eval initial_state_def flaky_ctx_fields two_keys_selected two_plainkeys
        flaky_state_1_def flaky_attempt_1_def)

lemma flaky_step_2:
  "attempt_body flaky_ctx 2 flaky_state_1 = Continue flaky_final"
  by (simp add: step_eval flaky_ctx_fields flaky_select_2 two_plainkeys
        flaky_state_1_def flaky_final_def flaky_attempt_2_def)

lemma flaky_step_3:
  "attempt_body flaky_ctx 3 flaky_final
     = Stop (Http_429 3 {} (Some Unexpected_exception)) flaky_final"
  by (simp add: step_eval flaky_ctx_fields flaky_select_3 flaky_final_def)

lemma flaky_run:
  "generate_with_fallback flaky_ctx two_keys []
     = (Http_429 3 {} (Some Unexpected_exception), 3, flaky_final)"
  by (simp add: generate_with_fallback_def fallback_loop.simps max_attempts_def
        flaky_step_1 flaky_step_2 flaky_step_3 del: One_nat_def)

lemma penalty_f3c2: "update_health two_keys ''f3c2'' False = Inr penalised_keys"
  by (simp add: update_health_def two_keys_def penalised_keys_def health_consts Let_def
        entry_b_def example_entry_def)

lemma penalised_differs: "penalised_keys \<noteq> two_keys"
  by (simp add: penalised_keys_def two_keys_def entry_b_def example_entry_def)

lemma steady_ctx_fields:
  "router steady_ctx = default_router" "preferred_model steady_ctx = Some GEMINI_25_FLASH"
  "estimated_tokens steady_ctx = 100" "required_caps steady_ctx = None"
  "clock steady_ctx n = (1000, ''2026-02-02'')"
  "upstream steady_ctx n k m = Success 42"
  by (simp_all add: steady_ctx_def example_clock_def)

lemma reward_f3c2: "update_health two_keys ''f3c2'' True = Inr two_keys"
  by (simp add: update_health_def two_keys_def health_consts Let_def entry_b_def
        example_entry_def)

lemma steady_step_1:
  "attempt_body steady_ctx 1 (initial_state two_keys [])
     = Stop (Served GEMINI_25_FLASH 42 0) steady_final"
  by (simp add: step_eval initial_state_def steady_ctx_fields two_keys_selected two_plainkeys
        reward_f3c2 steady_final_def steady_attempt_1_def)

lemma steady_run:
  "generate_with_fallback steady_ctx two_keys [] = (Served GEMINI_25_FLASH 42 0, 1, steady_final)"
  by (simp add: generate_with_fallback_def fallback_loop.simps max_attempts_def
        steady_step_1 del: One_nat_def)

lemma mixed_history:
  "history mixed_final = [mixed_attempt_1, mixed_attempt_2, mixed_attempt_3, mixed_attempt_4]"
  by (simp add: mixed_final_def)

lemmas mixed_attempts =
  mixed_attempt_1_def mixed_attempt_2_def mixed_attempt_3_def mixed_attempt_4_def

lemma steady_history: "history steady_final = [steady_attempt_1]"
  by (simp add: steady_final_def)

subsection \<open>Every run\<close>

lemma two_earlier_hits:
  assumes "i < j" and "j < k" and "k \<le> length h" and "P (h ! i)" and "P (h ! j)"
  shows "2 \<le> length (filter P (take k h))"
proof -
  have len: "length (take k h) = k" using assms(3) by simp
  have "{i, j} \<subseteq> {n. n < length (take k h) \<and> P (take k h ! n)}"
    using assms by (simp add: len)
  moreover have "finite {n. n < length (take k h) \<and> P (take k h ! n)}" by simp
  ultimately have "card {i, j} \<le> card {n. n < length (take k h) \<and> P (take k h ! n)}"
    by (rule card_mono [rotated])
  moreover have "card {i, j} = 2" using assms(1) by simp
  ultimately show ?thesis
    by (simp add: length_filter_conv_card)
qed

text \<open>
  Claim C1. In a run of the fallback loop, once two attempts have failed with status 429
  on a model, that model is in \<open>blocked_models\<close> and no later attempt of the run is on
  it; the two attempts are by different keys; and an attempt that fails with 429 calls
  \<open>update_health\<close> not at all and leaves the key store as it found it.
\<close>

theorem c1_model_wide_blocking:
  assumes "generate_with_fallback ctx ks rs = (res, iters, st)"
  shows "(\<forall>i j k. i < j \<and> j < k \<and> k < length (history st)
            \<and> a_result (history st ! i) = Upstream (Api_error 429)
            \<and> a_result (history st ! j) = Upstream (Api_error 429)
            \<and> a_model (history st ! i) = a_model (history st ! j)
            \<longrightarrow> a_model (history st ! k) \<noteq> a_model (history st ! j))
       \<and> (\<forall>i j. i < j \<and> j < length (history st)
            \<and> a_result (history st ! i) = Upstream (Api_error 429)
            \<and> a_result (history st ! j) = Upstream (Api_error 429)
            \<and> a_model (history st ! i) = a_model (history st ! j)
            \<longrightarrow> a_model (history st ! j) \<in> blocked_models st
                \<and> a_key (history st ! i) \<noteq> a_key (history st ! j))
       \<and> (\<forall>a \<in> set (history st). a_result a = Upstream (Api_error 429)
            \<longrightarrow> a_health_call a = None \<and> a_keys_after a = a_keys_before a)"
proof -
  let ?h = "history st"
  from generate_with_fallback_final [OF assms] have inv: "run_inv st" by blast
  then have d: "distinct (map pair_of ?h)"
    and b: "\<And>m. 2 \<le> count_429 m ?h \<Longrightarrow> m \<in> blocked_models st"
    and o: "\<And>k m. k < length ?h \<Longrightarrow> 2 \<le> count_429 m (take k ?h) \<Longrightarrow> a_model (?h ! k) \<noteq> m"
    and q: "\<And>x. x \<in> set ?h \<Longrightarrow> is_429 x \<Longrightarrow>
              a_health_call x = None \<and> a_keys_after x = a_keys_before x"
    by (simp_all add: run_inv_def)
  have later: "a_model (?h ! k) \<noteq> a_model (?h ! j)"
    if "i < j" "j < k" "k < length ?h"
       "a_result (?h ! i) = Upstream (Api_error 429)" "a_result (?h ! j) = Upstream (Api_error 429)"
       "a_model (?h ! i) = a_model (?h ! j)" for i j k
  proof -
    let ?P = "\<lambda>a. a_model a = a_model (?h ! j) \<and> is_429 a"
    from that have "?P (?h ! i)" "?P (?h ! j)" "k \<le> length ?h"
      by (simp_all add: is_429_def)
    with that(1,2) have "2 \<le> length (filter ?P (take k ?h))"
      by (intro two_earlier_hits [where i = i and j = j]) simp_all
    then have "2 \<le> count_429 (a_model (?h ! j)) (take k ?h)"
      by (simp add: count_429_def)
    with that(3) show ?thesis by (rule o)
  qed
  have blocked: "a_model (?h ! j) \<in> blocked_models st \<and> a_key (?h ! i) \<noteq> a_key (?h ! j)"
    if "i < j" "j < length ?h"
       "a_result (?h ! i) = Upstream (Api_error 429)" "a_result (?h ! j) = Upstream (Api_error 429)"
       "a_model (?h ! i) = a_model (?h ! j)" for i j
  proof -
    let ?P = "\<lambda>a. a_model a = a_model (?h ! j) \<and> is_429 a"
    from that have "?P (?h ! i)" "?P (?h ! j)"
      by (simp_all add: is_429_def)
    with that(1,2) have "2 \<le> length (filter ?P (take (Suc j) ?h))"
      by (intro two_earlier_hits [where i = i and j = j]) simp_all
    moreover have "length (filter ?P (take (Suc j) ?h)) \<le> length (filter ?P ?h)"
    proof -
      have "?h = take (Suc j) ?h @ drop (Suc j) ?h" by simp
      then have "filter ?P ?h = filter ?P (take (Suc j) ?h) @ filter ?P (drop (Suc j) ?h)"
        by (metis filter_append)
      then show ?thesis by simp
    qed
    ultimately have "2 \<le> count_429 (a_model (?h ! j)) ?h"
      by (simp add: count_429_def)
    then have inb: "a_model (?h ! j) \<in> blocked_models st" by (rule b)
    from that(1,2) have "i < length ?h" "i \<noteq> j" by simp_all
    with d that(2) have "pair_of (?h ! i) \<noteq> pair_of (?h ! j)"
      by (simp add: distinct_conv_nth)
    with that(5) have "a_key (?h ! i) \<noteq> a_key (?h ! j)"
      by (simp add: pair_of_def)
    with inb show ?thesis by blast
  qed
  have calm: "a_health_call a = None \<and> a_keys_after a = a_keys_before a"
    if "a \<in> set ?h" "a_result a = Upstream (Api_error 429)" for a
    using that q by (simp add: is_429_def)
  from later blocked calm show ?thesis by blast
qed

theorem c1_model_wide_blocking_witness:
  "generate_with_fallback mixed_ctx wide_keys []
     = (Http_429 5 {GEMINI_25_FLASH} (Some Unexpected_exception), 5, mixed_final)
   \<and> history mixed_final = [mixed_attempt_1, mixed_attempt_2, mixed_attempt_3, mixed_attempt_4]
   \<and> a_result mixed_attempt_1 = Upstream (Api_error 429)
   \<and> a_result mixed_attempt_2 = Upstream (Api_error 429)
   \<and> a_model mixed_attempt_1 = GEMINI_25_FLASH \<and> a_model mixed_attempt_2 = GEMINI_25_FLASH
   \<and> a_model mixed_attempt_3 \<noteq> GEMINI_25_FLASH \<and> a_model mixed_attempt_4 \<noteq> GEMINI_25_FLASH
   \<and> GEMINI_25_FLASH \<in> blocked_models mixed_final
   \<and> a_key mixed_attempt_1 \<noteq> a_key mixed_attempt_2
   \<and> a_health_call mixed_attempt_1 = None
   \<and> a_keys_after mixed_attempt_1 = a_keys_before mixed_attempt_1
   \<and> a_health_call mixed_attempt_2 = None
   \<and> a_keys_after mixed_attempt_2 = a_keys_before mixed_attempt_2"
proof -
  note inst = c1_model_wide_blocking [OF mixed_run]
  have two: "(0 :: nat) < 1 \<and> (1 :: nat) < 2 \<and> 2 < length (history mixed_final)
      \<and> a_result (history mixed_final ! 0) = Upstream (Api_error 429)
      \<and> a_result (history mixed_final ! 1) = Upstream (Api_error 429)
      \<and> a_model (history mixed_final ! 0) = a_model (history mixed_final ! 1)"
    by (simp add: mixed_history mixed_attempts)
  have two': "(0 :: nat) < 1 \<and> (1 :: nat) < 3 \<and> 3 < length (history mixed_final)
      \<and> a_result (history mixed_final ! 0) = Upstream (Api_error 429)
      \<and> a_result (history mixed_final ! 1) = Upstream (Api_error 429)
      \<and> a_model (history mixed_final ! 0) = a_model (history mixed_final ! 1)"
    by (simp add: mixed_history mixed_attempts)
  have pair: "(0 :: nat) < 1 \<and> 1 < length (history mixed_final)
      \<and> a_result (history mixed_final ! 0) = Upstream (Api_error 429)
      \<and> a_result (history mixed_final ! 1) = Upstream (Api_error 429)
      \<and> a_model (history mixed_final ! 0) = a_model (history mixed_final ! 1)"
    by (simp add: mixed_history mixed_attempts)
  have mem: "mixed_attempt_1 \<in> set (history mixed_final)"
    "mixed_attempt_2 \<in> set (history mixed_final)"
    by (simp_all add: mixed_history)
  have res: "a_result mixed_attempt_1 = Upstream (Api_error 429)"
    "a_result mixed_attempt_2 = Upstream (Api_error 429)"
    by (simp_all add: mixed_attempts)
  from inst [THEN conjunct1, rule_format, OF two]
  have third: "a_model (history mixed_final ! 2) \<noteq> a_model (history mixed_final ! 1)" .
  from inst [THEN conjunct1, rule_format, OF two']
  have fourth: "a_model (history mixed_final ! 3) \<noteq> a_model (history mixed_final ! 1)" .
  from inst [THEN conjunct2, THEN conjunct1, rule_format, OF pair]
  have blocked: "a_model (history mixed_final ! 1) \<in> blocked_models mixed_final
      \<and> a_key (history mixed_final ! 0) \<noteq> a_key (history mixed_final ! 1)" .
  from inst [THEN conjunct2, THEN conjunct2, rule_format, OF mem(1) res(1)]
  have calm1: "a_health_call mixed_attempt_1 = None
      \<and> a_keys_after mixed_attempt_1 = a_keys_before mixed_attempt_1" .
  from inst [THEN conjunct2, THEN conjunct2, rule_format, OF mem(2) res(2)]
  have calm2: "a_health_call mixed_attempt_2 = None
      \<and> a_keys_after mixed_attempt_2 = a_keys_before mixed_attempt_2" .
  have models: "a_model mixed_attempt_1 = GEMINI_25_FLASH" "a_model mixed_attempt_2 = GEMINI_25_FLASH"
    by (simp_all add: mixed_attempts)
  from third fourth blocked calm1 calm2 res models show ?thesis
    by (simp add: mixed_run mixed_history)
qed

text \<open>
  Claim C2. A run begins at most 20 iterations and makes at most as many attempts; each
  step of the loop that goes on enlarges \<open>failed_pairs\<close>, every attempt of a run is in
  the final \<open>failed_pairs\<close> except the one that was served, and the router never
  returned the same (key, model) pair twice.
\<close>

theorem c2_bounded_exclusive_attempts:
  assumes "generate_with_fallback ctx ks rs = (res, iters, st)"
  shows "iters \<le> 20 \<and> length (history st) \<le> iters
       \<and> distinct (map pair_of (history st))
       \<and> (\<forall>i < length (history st).
             pair_of (history st ! i) \<in> failed_pairs st
             \<or> (\<exists>m t. res = Served m t (iters - 1) \<and> i = length (history st) - 1
                   \<and> a_result (history st ! i) = Upstream (Success t)))
       \<and> (\<forall>n s0 s1. attempt_body ctx n s0 = Continue s1 \<longrightarrow> failed_pairs s0 \<subset> failed_pairs s1)
       \<and> (\<forall>n s0 r s1. attempt_body ctx n s0 = Stop r s1 \<longrightarrow> failed_pairs s0 \<subseteq> failed_pairs s1)"
proof -
  let ?h = "history st"
  from generate_with_fallback_final [OF assms] have
    inv: "run_inv st" and it: "iters \<le> max_attempts" and len: "length ?h \<le> iters" and
    fin: "(\<exists>m t. res = Served m t (iters - 1) \<and> ?h \<noteq> []
              \<and> a_result (last ?h) = Upstream (Success t)
              \<and> pair_of ` set (butlast ?h) \<subseteq> failed_pairs st)
          \<or> (((\<exists>bm le. res = Http_429 iters bm le) \<or> (\<exists>err. res = Raised err))
              \<and> all_excluded st)"
    by blast+
  from inv have d: "distinct (map pair_of ?h)" by (simp add: run_inv_def)
  have each: "pair_of (?h ! i) \<in> failed_pairs st
             \<or> (\<exists>m t. res = Served m t (iters - 1) \<and> i = length ?h - 1
                   \<and> a_result (?h ! i) = Upstream (Success t))"
    if i: "i < length ?h" for i
    using fin
  proof
    assume "\<exists>m t. res = Served m t (iters - 1) \<and> ?h \<noteq> []
              \<and> a_result (last ?h) = Upstream (Success t)
              \<and> pair_of ` set (butlast ?h) \<subseteq> failed_pairs st"
    then obtain m t where r: "res = Served m t (iters - 1)" and ne: "?h \<noteq> []"
      and ok: "a_result (last ?h) = Upstream (Success t)"
      and sub: "pair_of ` set (butlast ?h) \<subseteq> failed_pairs st"
      by blast
    show ?thesis
    proof (cases "i = length ?h - 1")
      case True
      with ne ok have "a_result (?h ! i) = Upstream (Success t)"
        by (simp add: last_conv_nth)
      with r True show ?thesis by blast
    next
      case False
      with i have "i < length (butlast ?h)" by simp
      then have "butlast ?h ! i \<in> set (butlast ?h)" by (rule nth_mem)
      moreover from \<open>i < length (butlast ?h)\<close> have "butlast ?h ! i = ?h ! i"
        by (simp add: nth_butlast)
      ultimately have "?h ! i \<in> set (butlast ?h)" by simp
      with sub show ?thesis by blast
    qed
  next
    assume "((\<exists>bm le. res = Http_429 iters bm le) \<or> (\<exists>err. res = Raised err)) \<and> all_excluded st"
    then have "pair_of ` set ?h \<subseteq> failed_pairs st"
      by (simp add: all_excluded_def)
    with i show ?thesis by (auto dest: nth_mem)
  qed
  have grows: "failed_pairs s0 \<subset> failed_pairs s1" if "attempt_body ctx n s0 = Continue s1" for n s0 s1
  proof -
    from attempt_body_Continue [OF that] obtain a where
      "logged s0 a s1" "pair_of a \<notin> failed_pairs s0" "pair_of a \<in> failed_pairs s1"
      by blast
    then show ?thesis by (auto simp: logged_def)
  qed
  have keeps: "failed_pairs s0 \<subseteq> failed_pairs s1" if "attempt_body ctx n s0 = Stop r s1" for n s0 r s1
    using attempt_body_Stop [OF that] by (auto simp: logged_def)
  from it have "iters \<le> 20" by (simp add: max_attempts_def)
  with len d each grows keeps show ?thesis by blast
qed

theorem c2_bounded_exclusive_attempts_witness:
  "generate_with_fallback mixed_ctx wide_keys []
     = (Http_429 5 {GEMINI_25_FLASH} (Some Unexpected_exception), 5, mixed_final)
   \<and> (5 :: nat) \<le> 20 \<and> length (history mixed_final) = 4
   \<and> map pair_of (history mixed_final)
       = [(''e4d3'', GEMINI_25_FLASH), (''1b2e'', GEMINI_25_FLASH),
          (''e4d3'', GEMINI_25_FLASH_LITE), (''1b2e'', GEMINI_25_FLASH_LITE)]
   \<and> distinct (map pair_of (history mixed_final))
   \<and> pair_of (history mixed_final ! 0) \<in> failed_pairs mixed_final
   \<and> pair_of (history mixed_final ! 1) \<in> failed_pairs mixed_final
   \<and> pair_of (history mixed_final ! 2) \<in> failed_pairs mixed_final
   \<and> pair_of (history mixed_final ! 3) \<in> failed_pairs mixed_final
   \<and> attempt_body mixed_ctx 1 (initial_state wide_keys []) = Continue mixed_state_1
   \<and> failed_pairs (initial_state wide_keys []) \<subset> failed_pairs mixed_state_1
   \<and> attempt_body mixed_ctx 2 mixed_state_1 = Continue mixed_state_2
   \<and> failed_pairs mixed_state_1 \<subset> failed_pairs mixed_state_2
   \<and> generate_with_fallback steady_ctx two_keys []
       = (Served GEMINI_25_FLASH 42 0, 1, steady_final)
   \<and> history steady_final = [steady_attempt_1]
   \<and> a_result steady_attempt_1 = Upstream (Success 42)
   \<and> pair_of steady_attempt_1 \<notin> failed_pairs steady_final
   \<and> attempt_body steady_ctx 1 (initial_state two_keys [])
       = Stop (Served GEMINI_25_FLASH 42 0) steady_final
   \<and> failed_pairs (initial_state two_keys []) \<subseteq> failed_pairs steady_final"
proof -
  note inst = c2_bounded_exclusive_attempts [OF mixed_run]
  note inst' = c2_bounded_exclusive_attempts [OF steady_run]
  from inst have bound: "(5 :: nat) \<le> 20 \<and> length (history mixed_final) \<le> 5"
    and dist: "distinct (map pair_of (history mixed_final))"
    by blast+
  have len: "length (history mixed_final) = 4"
    by (simp add: mixed_history)
  have pairs: "map pair_of (history mixed_final)
       = [(''e4d3'', GEMINI_25_FLASH), (''1b2e'', GEMINI_25_FLASH),
          (''e4d3'', GEMINI_25_FLASH_LITE), (''1b2e'', GEMINI_25_FLASH_LITE)]"
    by (simp add: mixed_history mixed_attempts pair_of_def)
  have each: "pair_of (history mixed_final ! i) \<in> failed_pairs mixed_final"
    if "i < length (history mixed_final)" for i
    using inst [THEN conjunct2, THEN conjunct2, THEN conjunct2, THEN conjunct1, rule_format, OF that]
    by simp
  have e0: "pair_of (history mixed_final ! 0) \<in> failed_pairs mixed_final"
    and e1: "pair_of (history mixed_final ! 1) \<in> failed_pairs mixed_final"
    and e2: "pair_of (history mixed_final ! 2) \<in> failed_pairs mixed_final"
    and e3: "pair_of (history mixed_final ! 3) \<in> failed_pairs mixed_final"
    by (rule each, simp add: len)+
  from inst have grows: "\<And>n s0 s1. attempt_body mixed_ctx n s0 = Continue s1
      \<Longrightarrow> failed_pairs s0 \<subset> failed_pairs s1"
    by blast
  from inst' have keeps: "\<And>n s0 r s1. attempt_body steady_ctx n s0 = Stop r s1
      \<Longrightarrow> failed_pairs s0 \<subseteq> failed_pairs s1"
    by blast
  note g1 = grows [OF mixed_step_1] and g2 = grows [OF mixed_step_2]
    and k1 = keeps [OF steady_step_1]
  have served: "a_result steady_attempt_1 = Upstream (Success 42)"
    "pair_of steady_attempt_1 \<notin> failed_pairs steady_final"
    by (simp_all add: steady_attempt_1_def steady_final_def)
  from bound dist len pairs e0 e1 e2 e3 g1 g2 k1 served show ?thesis
    by (simp add: mixed_run steady_run steady_history mixed_step_1 mixed_step_2 steady_step_1
          del: One_nat_def)
qed

lemma mem_butlast: "xs \<noteq> [] \<Longrightarrow> x \<in> set xs \<Longrightarrow> x \<noteq> last xs \<Longrightarrow> x \<in> set (butlast xs)"
  by (induction xs) (auto split: if_splits)

text \<open>
  Claim C4, as the specification states it, fails on the code: when the connection breaks
  on every call, the run on \<open>two_keys\<close> tries \<open>f3c2\<close> and then \<open>0a1f\<close>, makes no call of
  \<open>update_health\<close> and ends with the key store it began with, whereas a failure recorded
  against \<open>f3c2\<close> would have lowered its health score to 90 and raised its count of
  consecutive errors to 1.
\<close>

theorem c4_penalty_counterexample:
  "generate_with_fallback flaky_ctx two_keys []
     = (Http_429 3 {} (Some Unexpected_exception), 3, flaky_final)
   \<and> history flaky_final = [flaky_attempt_1, flaky_attempt_2]
   \<and> a_key flaky_attempt_1 = ''f3c2''
   \<and> a_result flaky_attempt_1 = Upstream Other_exception
   \<and> a_health_call flaky_attempt_1 = None
   \<and> a_keys_before flaky_attempt_1 = two_keys
   \<and> a_keys_after flaky_attempt_1 = two_keys
   \<and> key_db flaky_final = two_keys
   \<and> update_health two_keys ''f3c2'' False = Inr penalised_keys
   \<and> penalised_keys \<noteq> two_keys"
  by (simp add: flaky_run penalty_f3c2 penalised_differs flaky_final_def flaky_attempt_1_def)

lemma logged_last_error:
  assumes "logged st a st1"
  shows "history st1 \<noteq> [] \<and> a_result (last (history st1)) = Upstream Other_exception
           \<longrightarrow> last_error st1 = Some Unexpected_exception"
  using assms by (auto simp: logged_def split: if_splits)

lemma fallback_loop_last_error:
  assumes "fallback_loop ctx n st = (res, iters, st')"
      and "history st \<noteq> [] \<and> a_result (last (history st)) = Upstream Other_exception
             \<longrightarrow> last_error st = Some Unexpected_exception"
  shows "history st' \<noteq> [] \<and> a_result (last (history st')) = Upstream Other_exception
           \<longrightarrow> last_error st' = Some Unexpected_exception"
  using assms
proof (induction ctx n st rule: fallback_loop.induct)
  case (1 ctx n st)
  from "1.prems"(1) have run:
    "(if n < max_attempts
      then (case attempt_body ctx (n + 1) st of
              Continue st1 \<Rightarrow> fallback_loop ctx (n + 1) st1
            | Stop r st1 \<Rightarrow> (r, n + 1, st1))
      else (Http_429 n (blocked_models st) (last_error st), n, st)) = (res, iters, st')"
    by (subst (asm) fallback_loop.simps) simp
  show ?case
  proof (cases "n < max_attempts")
    case False
    with run have "st' = st" by auto
    with "1.prems"(2) show ?thesis by simp
  next
    case less: True
    show ?thesis
    proof (cases "attempt_body ctx (n + 1) st")
      case (Continue st1)
      with run less have rec: "fallback_loop ctx (n + 1) st1 = (res, iters, st')"
        by simp
      from attempt_body_Continue [OF Continue] obtain a where "logged st a st1"
        by blast
      then have "history st1 \<noteq> [] \<and> a_result (last (history st1)) = Upstream Other_exception
           \<longrightarrow> last_error st1 = Some Unexpected_exception"
        by (rule logged_last_error)
      with "1.IH" [OF less Continue rec] show ?thesis .
    next
      case (Stop r st1)
      with run less have eq: "st' = st1"
        by auto
      from attempt_body_Stop [OF Stop] consider (same) "st1 = st" | (logged) a where "logged st a st1"
        by blast
      then show ?thesis
      proof cases
        case same
        with eq "1.prems"(2) show ?thesis by simp
      next
        case logged
        from logged_last_error [OF logged] eq show ?thesis by simp
      qed
    qed
  qed
qed

text \<open>
  Claim C4, as the code has it. An attempt that ends in an exception other than
  \<open>GeminiAPIError\<close> puts its pair into \<open>failed_pairs\<close>, but it calls \<open>update_health\<close>
  not at all and leaves the key store as it found it: no failure is recorded against
  the key. The exception becomes \<open>last_error\<close>: the step of the loop at which the
  upstream call raises it changes \<open>failed_pairs\<close> and \<open>last_error\<close> and nothing else of
  the state, and when it is the last attempt of a run, it is the \<open>last_error\<close> of the
  run.
\<close>

theorem c4_unexpected_error_no_penalty:
  assumes "generate_with_fallback ctx ks rs = (res, iters, st)"
  shows "(\<forall>a \<in> set (history st). a_result a = Upstream Other_exception
           \<longrightarrow> pair_of a \<in> failed_pairs st
               \<and> a_health_call a = None \<and> a_keys_after a = a_keys_before a)
       \<and> (history st \<noteq> [] \<and> a_result (last (history st)) = Upstream Other_exception
           \<longrightarrow> last_error st = Some Unexpected_exception)
       \<and> (\<forall>n s0 kh m em pv k.
             select_best_key_and_model (router ctx) (key_db s0) (rate_db s0)
                 (fst (clock ctx n)) (snd (clock ctx n))
                 (preferred_model ctx) (estimated_tokens ctx)
                 (if truthy_set (required_caps ctx) then required_caps ctx else None)
                 (failed_pairs s0) (blocked_models s0) = Inr (kh, m, em, pv)
             \<and> plainkeys (key_db s0) kh = Some k \<and> k \<noteq> []
             \<and> upstream ctx n k m = Other_exception
           \<longrightarrow> attempt_body ctx n s0
               = Continue (s0\<lparr>failed_pairs := insert (kh, m) (failed_pairs s0),
                               last_error := Some Unexpected_exception,
                               history := history s0 @
                                 [\<lparr>a_key = kh, a_model = m, a_result = Upstream Other_exception,
                                   a_health_call = None, a_keys_before = key_db s0,
                                   a_keys_after = key_db s0\<rparr>]\<rparr>))"
proof -
  let ?h = "history st"
  from generate_with_fallback_final [OF assms] have
    inv: "run_inv st" and
    fin: "(\<exists>m t. res = Served m t (iters - 1) \<and> ?h \<noteq> []
              \<and> a_result (last ?h) = Upstream (Success t)
              \<and> pair_of ` set (butlast ?h) \<subseteq> failed_pairs st)
          \<or> (((\<exists>bm le. res = Http_429 iters bm le) \<or> (\<exists>err. res = Raised err))
              \<and> all_excluded st)"
    by blast+
  have each: "pair_of a \<in> failed_pairs st
               \<and> a_health_call a = None \<and> a_keys_after a = a_keys_before a"
    if mem: "a \<in> set ?h" and exc: "a_result a = Upstream Other_exception" for a
  proof -
    from inv mem exc have calm: "a_health_call a = None \<and> a_keys_after a = a_keys_before a"
      by (simp add: run_inv_def)
    from fin have "pair_of a \<in> failed_pairs st"
    proof
      assume "\<exists>m t. res = Served m t (iters - 1) \<and> ?h \<noteq> []
              \<and> a_result (last ?h) = Upstream (Success t)
              \<and> pair_of ` set (butlast ?h) \<subseteq> failed_pairs st"
      then obtain t where ne: "?h \<noteq> []" and ok: "a_result (last ?h) = Upstream (Success t)"
        and sub: "pair_of ` set (butlast ?h) \<subseteq> failed_pairs st"
        by blast
      from ok exc have "a \<noteq> last ?h" by auto
      with ne mem have "a \<in> set (butlast ?h)" by (rule mem_butlast)
      with sub show ?thesis by blast
    next
      assume "((\<exists>bm le. res = Http_429 iters bm le) \<or> (\<exists>err. res = Raised err)) \<and> all_excluded st"
      with mem show ?thesis by (auto simp: all_excluded_def)
    qed
    with calm show ?thesis by blast
  qed
  from assms have "fallback_loop ctx 0 (initial_state ks rs) = (res, iters, st)"
    by (simp add: generate_with_fallback_def)
  then have final: "?h \<noteq> [] \<and> a_result (last ?h) = Upstream Other_exception
           \<longrightarrow> last_error st = Some Unexpected_exception"
    by (rule fallback_loop_last_error) (simp add: initial_state_def)
  have step: "attempt_body ctx n s0
               = Continue (s0\<lparr>failed_pairs := insert (kh, m) (failed_pairs s0),
                               last_error := Some Unexpected_exception,
                               history := history s0 @
                                 [\<lparr>a_key = kh, a_model = m, a_result = Upstream Other_exception,
                                   a_health_call = None, a_keys_before = key_db s0,
                                   a_keys_after = key_db s0\<rparr>]\<rparr>)"
    if "select_best_key_and_model (router ctx) (key_db s0) (rate_db s0)
                 (fst (clock ctx n)) (snd (clock ctx n))
                 (preferred_model ctx) (estimated_tokens ctx)
                 (if truthy_set (required_caps ctx) then required_caps ctx else None)
                 (failed_pairs s0) (blocked_models s0) = Inr (kh, m, em, pv)"
       "plainkeys (key_db s0) kh = Some k" "k \<noteq> []" "upstream ctx n k m = Other_exception"
    for n s0 kh m em pv k
    using that by (simp add: attempt_body_def after_selection_def log_attempt_def Let_def)
  from each final step show ?thesis by blast
qed

theorem c4_unexpected_error_no_penalty_witness:
  "generate_with_fallback flaky_ctx two_keys []
     = (Http_429 3 {} (Some Unexpected_exception), 3, flaky_final)
   \<and> flaky_attempt_2 \<in> set (history flaky_final)
   \<and> last (history flaky_final) = flaky_attempt_2
   \<and> a_result flaky_attempt_2 = Upstream Other_exception
   \<and> pair_of flaky_attempt_2 \<in> failed_pairs flaky_final
   \<and> a_health_call flaky_attempt_2 = None
   \<and> a_keys_after flaky_attempt_2 = a_keys_before flaky_attempt_2
   \<and> last_error flaky_final = Some Unexpected_exception
   \<and> upstream flaky_ctx 1 ''raw-b'' GEMINI_25_FLASH = Other_exception
   \<and> attempt_body flaky_ctx 1 (initial_state two_keys []) = Continue flaky_state_1
   \<and> last_error flaky_state_1 = Some Unexpected_exception
   \<and> failed_pairs flaky_state_1 = {(''f3c2'', GEMINI_25_FLASH)}
   \<and> key_db flaky_state_1 = two_keys"
proof -
  note inst = c4_unexpected_error_no_penalty [OF flaky_run]
  have mem: "flaky_attempt_2 \<in> set (history flaky_final)"
    and lst: "history flaky_final \<noteq> []
      \<and> a_result (last (history flaky_final)) = Upstream Other_exception"
    and lst': "last (history flaky_final) = flaky_attempt_2"
    by (simp_all add: flaky_final_def flaky_attempt_2_def)
  have exc: "a_result flaky_attempt_2 = Upstream Other_exception"
    by (simp add: flaky_attempt_2_def)
  have sel: "select_best_key_and_model (router flaky_ctx) (key_db (initial_state two_keys []))
        (rate_db (initial_state two_keys []))
        (fst (clock flaky_ctx 1)) (snd (clock flaky_ctx 1))
        (preferred_model flaky_ctx) (estimated_tokens flaky_ctx)
        (if truthy_set (required_caps flaky_ctx) then required_caps flaky_ctx else None)
        (failed_pairs (initial_state two_keys [])) (blocked_models (initial_state two_keys []))
      = Inr (''f3c2'', GEMINI_25_FLASH, ''b@example.org'', ''...bbbbbb'')
    \<and> plainkeys (key_db (initial_state two_keys [])) ''f3c2'' = Some ''raw-b'' \<and> ''raw-b'' \<noteq> []
    \<and> upstream flaky_ctx 1 ''raw-b'' GEMINI_25_FLASH = Other_exception"
    by (simp add: flaky_ctx_fields initial_state_def truthy_set_def two_keys_selected
          two_plainkeys)
  from inst [THEN conjunct1, rule_format, OF mem exc]
  have a: "pair_of flaky_attempt_2 \<in> failed_pairs flaky_final
      \<and> a_health_call flaky_attempt_2 = None
      \<and> a_keys_after flaky_attempt_2 = a_keys_before flaky_attempt_2" .
  from inst [THEN conjunct2, THEN conjunct1, rule_format, OF lst]
  have b: "last_error flaky_final = Some Unexpected_exception" .
  from inst [THEN conjunct2, THEN conjunct2, rule_format, OF sel]
  have c: "attempt_body flaky_ctx 1 (initial_state two_keys []) = Continue flaky_state_1"
    by (simp add: initial_state_def flaky_state_1_def flaky_attempt_1_def)
  have d: "last_error flaky_state_1 = Some Unexpected_exception"
    "failed_pairs flaky_state_1 = {(''f3c2'', GEMINI_25_FLASH)}"
    "key_db flaky_state_1 = two_keys"
    by (simp_all add: flaky_state_1_def)
  from a b c d mem lst' exc show ?thesis
    by (simp add: flaky_run flaky_ctx_fields del: One_nat_def)
qed

end
